theory Spec2Isabelle
  imports Complex_Main "HOL-Library.Word"
begin

section \<open>Values, errors and buffers\<close>

text \<open>
  Morphing.py computes on numpy arrays. A float64 is modelled as an exact rational
  (rounding error of the floating-point operations is not modelled), a uint8 as an
  8-bit word. A pixel is the list of its channel values (one channel for the grayscale
  \<open>Blender\<close>, three for \<open>ColorBlender\<close>), an image the list of its rows.
  Every exception the code can raise is a constructor of \<open>error\<close>; the names are
  Python's and numpy's.
\<close>

datatype error =
    ValueError | TypeError | IndexError | ZeroDivisionError
  | LinAlgError | QhullError | FileNotFoundError

type_synonym point = "rat \<times> rat"
type_synonym pixel = "8 word list"
type_synonym image = "pixel list list"

definition height :: "image \<Rightarrow> nat" where
  "height img = length img"

definition width :: "image \<Rightarrow> nat" where
  "width img = (case img of [] \<Rightarrow> 0 | r # _ \<Rightarrow> length r)"

definition channels :: "image \<Rightarrow> nat" where
  "channels img = (case img of [] \<Rightarrow> 0 | r # _ \<Rightarrow> (case r of [] \<Rightarrow> 0 | p # _ \<Rightarrow> length p))"

definition shape :: "image \<Rightarrow> nat \<times> nat \<times> nat" where
  "shape img = (height img, width img, channels img)"

text \<open>A buffer as numpy holds it: every row has the same width, every pixel the same
  number of channels.\<close>

definition rectangular :: "nat \<Rightarrow> nat \<Rightarrow> nat \<Rightarrow> image \<Rightarrow> bool" where
  "rectangular h w n img =
     (length img = h \<and> list_all (\<lambda>row. length row = w \<and> list_all (\<lambda>p. length p = n) row) img)"

text \<open>\<open>Image.new(mode, (w, h), 0)\<close> turned into an array: all zeros.\<close>

definition blank :: "nat \<Rightarrow> nat \<Rightarrow> nat \<Rightarrow> image" where
  "blank h w n = replicate h (replicate w (replicate n 0))"

section \<open>Cross-dissolve\<close>

text \<open>
  \<open>((1 - alpha) * targetStart + alpha * targetEnd).astype(dtype='uint8')\<close>:
  the weighted sum is a float64 array; \<open>astype\<close> converts by dropping the fractional
  part (C's conversion) and keeps the low eight bits. Buffers of different shapes
  raise \<open>ValueError\<close> (numpy's broadcasting of an axis of length one is not modelled).
\<close>

definition astype_uint8 :: "rat \<Rightarrow> 8 word" where
  "astype_uint8 x = word_of_int (if 0 \<le> x then \<lfloor>x\<rfloor> else \<lceil>x\<rceil>)"

definition blend_channel :: "rat \<Rightarrow> 8 word \<Rightarrow> 8 word \<Rightarrow> 8 word" where
  "blend_channel alpha s e =
     astype_uint8 ((1 - alpha) * of_nat (unat s) + alpha * of_nat (unat e))"

definition cross_dissolve :: "rat \<Rightarrow> image \<Rightarrow> image \<Rightarrow> error + image" where
  "cross_dissolve alpha targetStart targetEnd =
     (if shape targetStart \<noteq> shape targetEnd then Inl ValueError
      else Inr (map2 (map2 (map2 (blend_channel alpha))) targetStart targetEnd))"

text \<open>\<open>np.round\<close>: to the nearest integer, a tie to the even neighbour.\<close>

definition np_round :: "rat \<Rightarrow> int" where
  "np_round x =
     (let f = \<lfloor>x\<rfloor>; d = x - of_int f
      in if d < 1 / 2 then f else if 1 / 2 < d then f + 1 else if even f then f else f + 1)"

section \<open>Frame names\<close>

text \<open>\<open>'frame{:03d}.jpg'.format(number)\<close>: decimal, zero-padded to width three, the
  sign counted in the width.\<close>

definition digit_char :: "nat \<Rightarrow> char" where
  "digit_char d = ''0123456789'' ! d"

fun digits :: "nat \<Rightarrow> string" where
  "digits n = (if n < 10 then [digit_char n] else digits (n div 10) @ [digit_char (n mod 10)])"

definition zfill :: "nat \<Rightarrow> string \<Rightarrow> string" where
  "zfill w s = replicate (w - length s) (CHR ''0'') @ s"

definition format_03d :: "int \<Rightarrow> string" where
  "format_03d number =
     (if number < 0 then ''-'' @ zfill 2 (digits (nat (- number)))
      else zfill 3 (digits (nat number)))"

definition FrameName :: "int \<Rightarrow> string" where
  "FrameName number = ''frame'' @ format_03d number @ ''.jpg''"

section \<open>The sequence generator\<close>

text \<open>
  \<open>Blender.generateMorphVideo\<close>. The file system is a map from paths to the images
  saved there (encoding to JPEG and decoding are taken as lossless); \<open>_SaveImage\<close>
  overwrites. The method calls \<open>self.getBlendedImage\<close>, which \<open>ColorBlender\<close>
  overrides, so the model takes the blend function as an argument. The result is the
  file system as the call leaves it, also when it raises, and either the error or the
  list of paths with the frames the video writer read from them.
\<close>

type_synonym files = "string \<rightharpoonup> image"

record morph_state =
  files :: files
  imageList :: "image list"
  fileList :: "string list"

definition SaveImage :: "image \<Rightarrow> string \<Rightarrow> files \<Rightarrow> files" where
  "SaveImage npArray fileName fs = fs(fileName \<mapsto> npArray)"

definition save_frame :: "string \<Rightarrow> image \<Rightarrow> int \<Rightarrow> morph_state \<Rightarrow> morph_state" where
  "save_frame targetFolderPath img number st =
     \<lparr>files = SaveImage img (targetFolderPath @ ''/'' @ FrameName number) (files st),
      imageList = imageList st @ [img],
      fileList = fileList st @ [targetFolderPath @ ''/'' @ FrameName number]\<rparr>"

text \<open>The loop \<open>for i in range(sequenceLength - 2)\<close>, with the running \<open>alpha\<close>.\<close>

fun blend_loop ::
  "(rat \<Rightarrow> error + image) \<Rightarrow> string \<Rightarrow> rat \<Rightarrow> nat list \<Rightarrow> rat \<Rightarrow> morph_state
     \<Rightarrow> morph_state \<times> error option" where
  "blend_loop blend targetFolderPath increment [] alpha st = (st, None)"
| "blend_loop blend targetFolderPath increment (i # rest) alpha st =
     (case blend (alpha + increment) of
        Inl e \<Rightarrow> (st, Some e)
      | Inr img \<Rightarrow>
          blend_loop blend targetFolderPath increment rest (alpha + increment)
            (save_frame targetFolderPath img (int i + 1) st))"

text \<open>The loop \<open>for image in reversed(imageList)\<close>: it saves and lists the file, and
  leaves \<open>imageList\<close> alone.\<close>

fun reverse_loop :: "string \<Rightarrow> image list \<Rightarrow> int \<Rightarrow> morph_state \<Rightarrow> morph_state" where
  "reverse_loop targetFolderPath [] seqNum st = st"
| "reverse_loop targetFolderPath (img # rest) seqNum st =
     reverse_loop targetFolderPath rest (seqNum + 1)
       (st\<lparr>files := SaveImage img (targetFolderPath @ ''/'' @ FrameName seqNum) (files st),
           fileList := fileList st @ [targetFolderPath @ ''/'' @ FrameName seqNum]\<rparr>)"

text \<open>\<open>io.imread\<close> on every path of the list, in order.\<close>

fun read_frames :: "files \<Rightarrow> string list \<Rightarrow> error + image list" where
  "read_frames fs [] = Inr []"
| "read_frames fs (p # ps) =
     (case fs p of
        None \<Rightarrow> Inl FileNotFoundError
      | Some im \<Rightarrow> (case read_frames fs ps of Inl e \<Rightarrow> Inl e | Inr ims \<Rightarrow> Inr (im # ims)))"

definition generateMorphVideo ::
  "(rat \<Rightarrow> error + image) \<Rightarrow> image \<Rightarrow> image \<Rightarrow> string \<Rightarrow> int \<Rightarrow> bool \<Rightarrow> files
     \<Rightarrow> files \<times> (error + string list \<times> image list)" where
  "generateMorphVideo blend startImage endImage targetFolderPath sequenceLength includeReversed fs =
     (let st1 = save_frame targetFolderPath startImage 1
                  \<lparr>files = fs, imageList = [], fileList = []\<rparr>
      in if (sequenceLength - 2) + 1 = 0 then (files st1, Inl ZeroDivisionError)
         else
           (case blend_loop blend targetFolderPath (1 / of_int ((sequenceLength - 2) + 1))
                   [0 ..< nat (sequenceLength - 2)] 0 st1 of
              (st2, Some e) \<Rightarrow> (files st2, Inl e)
            | (st2, None) \<Rightarrow>
                (let st3 = save_frame targetFolderPath endImage sequenceLength st2;
                     st4 = (if includeReversed
                            then reverse_loop targetFolderPath (rev (imageList st3))
                                   (sequenceLength + 1) st3
                            else st3)
                 in (files st4,
                     (case read_frames (files st4) (fileList st4) of
                        Inl e \<Rightarrow> Inl e
                      | Inr video \<Rightarrow> Inr (fileList st4, video))))))"

section \<open>Linear algebra\<close>

text \<open>
  \<open>np.linalg.solve\<close> and \<open>np.linalg.inv\<close> are numpy's (LAPACK's \<open>gesv\<close>); their code is
  not part of the repository. They are modelled by their contract in exact arithmetic:
  \<open>LinAlgError\<close> for a singular matrix, the unique solution otherwise, computed here
  by Cramer's rule. The determinant is the Laplace expansion along the first column;
  a zero entry contributes nothing and its minor is not expanded.
\<close>

function expand :: "rat \<Rightarrow> rat list list \<Rightarrow> rat list list \<Rightarrow> rat" where
  "expand s upper [] = 0"
| "expand s upper ([] # lower) = 0"
| "expand s upper ((x # xs) # lower) =
     (if x = 0 then 0
      else s * x * (if upper @ lower = [] then 1 else expand 1 [] (map tl (upper @ lower))))
     + expand (- s) (upper @ [x # xs]) lower"
  by pat_completeness auto
termination
  by (relation "inv_image (less_than <*lex*> less_than)
        (\<lambda>(s, upper, lower). (length upper + length lower, length lower))") auto

definition det :: "rat list list \<Rightarrow> rat" where
  "det M = (if M = [] then 1 else expand 1 [] M)"

definition replace_col :: "nat \<Rightarrow> rat list \<Rightarrow> rat list list \<Rightarrow> rat list list" where
  "replace_col j b A = map2 (\<lambda>row v. row[j := v]) A b"

definition linalg_solve :: "rat list list \<Rightarrow> rat list \<Rightarrow> error + rat list" where
  "linalg_solve A b =
     (if det A = 0 then Inl LinAlgError
      else Inr (map (\<lambda>j. det (replace_col j b A) / det A) [0 ..< length A]))"

definition unit_vector :: "nat \<Rightarrow> nat \<Rightarrow> rat list" where
  "unit_vector n j = map (\<lambda>i. if i = j then 1 else 0) [0 ..< n]"

text \<open>The inverse: column \<open>j\<close> solves \<open>M x = e\<^sub>j\<close>; entry \<open>(i, j)\<close> is that solution's
  component \<open>i\<close>.\<close>

definition linalg_inv :: "rat list list \<Rightarrow> error + rat list list" where
  "linalg_inv M =
     (if det M = 0 then Inl LinAlgError
      else Inr (map (\<lambda>i. map (\<lambda>j. det (replace_col i (unit_vector (length M) j) M) / det M)
                               [0 ..< length M])
                    [0 ..< length M]))"

text \<open>\<open>np.matmul\<close> of a matrix and one column.\<close>

definition matvec :: "rat list list \<Rightarrow> rat list \<Rightarrow> rat list" where
  "matvec M v = map (\<lambda>row. sum_list (map2 (*) row v)) M"

section \<open>Affine\<close>

record Affine =
  source :: "point list"
  destination :: "point list"
  matrix :: "rat list list"
  inverseMatrix :: "rat list list"

text \<open>\<open>Affine._CreateMatrix\<close>: the six equations of the three correspondences.\<close>

definition CreateMatrix :: "point list \<Rightarrow> point list \<Rightarrow> error + rat list list" where
  "CreateMatrix src dst =
     (let A = [[fst (src ! 0), snd (src ! 0), 1, 0, 0, 0],
               [0, 0, 0, fst (src ! 0), snd (src ! 0), 1],
               [fst (src ! 1), snd (src ! 1), 1, 0, 0, 0],
               [0, 0, 0, fst (src ! 1), snd (src ! 1), 1],
               [fst (src ! 2), snd (src ! 2), 1, 0, 0, 0],
               [0, 0, 0, fst (src ! 2), snd (src ! 2), 1]];
          b = [fst (dst ! 0), snd (dst ! 0), fst (dst ! 1), snd (dst ! 1),
               fst (dst ! 2), snd (dst ! 2)]
      in case linalg_solve A b of
           Inl e \<Rightarrow> Inl e
         | Inr H \<Rightarrow> Inr [[H ! 0, H ! 1, H ! 2], [H ! 3, H ! 4, H ! 5], [0, 0, 1]])"

text \<open>\<open>Affine.__init__\<close>. The checks on the array type and on the dtype hold by typing;
  the check on the shape \<open>(3, 2)\<close> is the check on the number of points.\<close>

definition Affine_init :: "point list \<Rightarrow> point list \<Rightarrow> error + Affine" where
  "Affine_init src dst =
     (if length src \<noteq> 3 \<or> length dst \<noteq> 3 then Inl ValueError
      else case CreateMatrix src dst of
             Inl e \<Rightarrow> Inl e
           | Inr m \<Rightarrow>
               (case linalg_inv m of
                  Inl e \<Rightarrow> Inl e
                | Inr im \<Rightarrow>
                    Inr \<lparr>source = src, destination = dst, matrix = m, inverseMatrix = im\<rparr>))"

text \<open>Twice the signed area of a triangle: zero exactly for collinear points.\<close>

definition area2 :: "point \<Rightarrow> point \<Rightarrow> point \<Rightarrow> rat" where
  "area2 p q r = fst p * (snd q - snd r) - snd p * (fst q - fst r) + (fst q * snd r - fst r * snd q)"

section \<open>Library behaviour taken as given\<close>

text \<open>
  Two things the code leaves to its libraries and to the platform are parameters of
  the model: which pixels \<open>ImageDraw.polygon(vertices, outline=255, fill=255)\<close> sets
  (\<open>polygon vertices x y\<close>, for the pixel in column \<open>x\<close> and row \<open>y\<close>), and the uint8
  that the conversion of a NaN gives (numpy leaves it to C; 0 on x86-64).
\<close>

record libs =
  polygon :: "point list \<Rightarrow> nat \<Rightarrow> nat \<Rightarrow> bool"
  nan_uint8 :: "8 word"

text \<open>A reference rasteriser for concrete runs: the pixels whose centre lies in the
  closed triangle (the fill with its boundary).\<close>

definition closed_triangle :: "point list \<Rightarrow> nat \<Rightarrow> nat \<Rightarrow> bool" where
  "closed_triangle vs x y =
     (case vs of
        [p, q, r] \<Rightarrow>
          (let s = (of_nat x, of_nat y);
               d1 = area2 p q s; d2 = area2 q r s; d3 = area2 r p s
           in (0 \<le> d1 \<and> 0 \<le> d2 \<and> 0 \<le> d3) \<or> (d1 \<le> 0 \<and> d2 \<le> 0 \<and> d3 \<le> 0))
      | _ \<Rightarrow> False)"

definition reference_libs :: libs where
  "reference_libs = \<lparr>polygon = closed_triangle, nan_uint8 = 0\<rparr>"

section \<open>Affine.transform\<close>

text \<open>\<open>Affine._Mask\<close>: an image of the destination's height and width, 255 where the
  polygon of the destination triangle is drawn.\<close>

definition Mask :: "libs \<Rightarrow> Affine \<Rightarrow> image \<Rightarrow> 8 word list list" where
  "Mask L a destinationImage =
     map (\<lambda>r. map (\<lambda>c. if polygon L (destination a) c r then 255 else 0)
                  [0 ..< width destinationImage])
         [0 ..< height destinationImage]"

text \<open>\<open>scipy.sparse.find\<close>: the (row, column) pairs of the non-zero entries.\<close>

definition find_nonzero :: "8 word list list \<Rightarrow> (nat \<times> nat) list" where
  "find_nonzero m =
     concat (map (\<lambda>(r, row). map (\<lambda>(c, v). (r, c)) (filter (\<lambda>(c, v). v \<noteq> 0) (enumerate 0 row)))
                 (enumerate 0 m))"

text \<open>\<open>np.matmul(self.inverseMatrix, destArray)\<close> for one masked pixel, and the sample
  point \<open>(result[1], result[0])\<close>: the source row coordinate first.\<close>

definition inverse_map :: "Affine \<Rightarrow> nat \<times> nat \<Rightarrow> rat \<times> rat" where
  "inverse_map a rc =
     (let result = matvec (inverseMatrix a) [of_nat (snd rc), of_nat (fst rc), 1]
      in (result ! 1, result ! 0))"

text \<open>
  \<open>interpn(points, values, xi, bounds_error=False)\<close>: linear interpolation on the grid
  of the pixel indices, NaN (here \<open>None\<close>) in every channel for a sample outside the
  grid. scipy picks the cell by binary search; on a grid line both cells give the same
  value. A grid needs two points in each dimension.
\<close>

definition find_index :: "nat \<Rightarrow> rat \<Rightarrow> nat" where
  "find_index n x = nat (min (max (\<lceil>x\<rceil> - 1) 0) (int n - 2))"

definition sample :: "image \<Rightarrow> nat \<Rightarrow> nat \<Rightarrow> nat \<Rightarrow> rat" where
  "sample values i j k = of_nat (unat (values ! i ! j ! k))"

definition outside :: "image \<Rightarrow> rat \<times> rat \<Rightarrow> bool" where
  "outside values p =
     (fst p < 0 \<or> of_nat (height values - 1) < fst p
      \<or> snd p < 0 \<or> of_nat (width values - 1) < snd p)"

definition interp_point :: "image \<Rightarrow> rat \<times> rat \<Rightarrow> rat option list" where
  "interp_point values p =
     (if outside values p then replicate (channels values) None
      else
        (let y = fst p; x = snd p;
             i = find_index (height values) y; j = find_index (width values) x;
             ty = y - of_nat i; tx = x - of_nat j
         in map (\<lambda>k. Some ((1 - ty) * (1 - tx) * sample values i j k
                          + (1 - ty) * tx * sample values i (j + 1) k
                          + ty * (1 - tx) * sample values (i + 1) j k
                          + ty * tx * sample values (i + 1) (j + 1) k))
                [0 ..< channels values]))"

definition interpn :: "image \<Rightarrow> (rat \<times> rat) list \<Rightarrow> error + rat option list list" where
  "interpn values xi =
     (if height values < 2 \<or> width values < 2 then Inl ValueError
      else Inr (map (interp_point values) xi))"

text \<open>\<open>np.round\<close> of one interpolated pixel, converted to uint8 by the assignment.\<close>

definition round_pixel :: "libs \<Rightarrow> rat option list \<Rightarrow> pixel" where
  "round_pixel L vs =
     map (\<lambda>v. case v of None \<Rightarrow> nan_uint8 L | Some x \<Rightarrow> word_of_int (np_round x)) vs"

definition set_pixel :: "image \<Rightarrow> nat \<times> nat \<Rightarrow> pixel \<Rightarrow> image" where
  "set_pixel img rc p = img[fst rc := (img ! fst rc)[snd rc := p]]"

text \<open>\<open>destinationImage[sparse[0], sparse[1]] = ...\<close>: one write per masked pixel.\<close>

definition assign_pixels :: "image \<Rightarrow> ((nat \<times> nat) \<times> pixel) list \<Rightarrow> image" where
  "assign_pixels img writes = fold (\<lambda>(rc, p) d. set_pixel d rc p) writes img"

text \<open>\<open>Affine.transform\<close>; the new content of \<open>destinationImage\<close> is the result. A
  source whose pixels have another number of channels than the destination's does not
  fit the assignment.\<close>

definition transform :: "libs \<Rightarrow> Affine \<Rightarrow> image \<Rightarrow> image \<Rightarrow> error + image" where
  "transform L a sourceImage destinationImage =
     (let sparse = find_nonzero (Mask L a destinationImage);
          valuePoints = map (inverse_map a) sparse
      in case interpn sourceImage valuePoints of
           Inl e \<Rightarrow> Inl e
         | Inr results \<Rightarrow>
             if channels sourceImage \<noteq> channels destinationImage then Inl ValueError
             else Inr (assign_pixels destinationImage
                         (zip sparse (map (round_pixel L) results))))"

section \<open>Blender\<close>

record Blender =
  startImage :: image
  startPoints :: "point list"
  endImage :: image
  endPoints :: "point list"
  triangles :: "(nat \<times> nat \<times> nat) list"

text \<open>\<open>Blender.__init__\<close>: the arguments are stored and \<open>Delaunay(self.startPoints)\<close> is
  computed. The triangulator is scipy's and is an argument of the model.\<close>

definition Blender_init ::
  "(point list \<Rightarrow> error + (nat \<times> nat \<times> nat) list) \<Rightarrow> image \<Rightarrow> point list \<Rightarrow> image \<Rightarrow> point list
     \<Rightarrow> error + Blender" where
  "Blender_init delaunay startImg startPts endImg endPts =
     (case delaunay startPts of
        Inl e \<Rightarrow> Inl e
      | Inr simplices \<Rightarrow>
          Inr \<lparr>startImage = startImg, startPoints = startPts, endImage = endImg,
               endPoints = endPts, triangles = simplices\<rparr>)"

text \<open>A reference triangulator for concrete runs: the triples of points, not collinear,
  whose circumcircle has no point strictly inside; an error when there is none.\<close>

definition in_circle :: "point \<Rightarrow> point \<Rightarrow> point \<Rightarrow> point \<Rightarrow> bool" where
  "in_circle p q r s =
     (let ax = fst p - fst s; ay = snd p - snd s;
          bx = fst q - fst s; by = snd q - snd s;
          cx = fst r - fst s; cy = snd r - snd s;
          d = (ax * ax + ay * ay) * (bx * cy - cx * by)
              - (bx * bx + by * by) * (ax * cy - cx * ay)
              + (cx * cx + cy * cy) * (ax * by - bx * ay)
      in 0 < d * area2 p q r)"

definition Delaunay :: "point list \<Rightarrow> error + (nat \<times> nat \<times> nat) list" where
  "Delaunay ps =
     (let ids = [0 ..< length ps];
          ts = filter (\<lambda>(i, j, k). i < j \<and> j < k
                         \<and> area2 (ps ! i) (ps ! j) (ps ! k) \<noteq> 0
                         \<and> list_all (\<lambda>s. \<not> in_circle (ps ! i) (ps ! j) (ps ! k) s) ps)
                      (List.product ids (List.product ids ids))
      in if ts = [] then Inl QhullError else Inr ts)"

text \<open>\<open>(1 - alpha) * self.startPoints + alpha * self.endPoints\<close>, with numpy's
  broadcasting of a single row.\<close>

definition lerp :: "rat \<Rightarrow> point \<Rightarrow> point \<Rightarrow> point" where
  "lerp alpha p q =
     ((1 - alpha) * fst p + alpha * fst q, (1 - alpha) * snd p + alpha * snd q)"

definition interpolate_points :: "rat \<Rightarrow> point list \<Rightarrow> point list \<Rightarrow> error + point list" where
  "interpolate_points alpha sp ep =
     (if length sp = length ep then Inr (map2 (lerp alpha) sp ep)
      else if length sp = 1 then Inr (map (lerp alpha (hd sp)) ep)
      else if length ep = 1 then Inr (map (\<lambda>p. lerp alpha p (hd ep)) sp)
      else Inl ValueError)"

text \<open>The three vertices of a simplex in a point array.\<close>

definition tri_points :: "point list \<Rightarrow> nat \<times> nat \<times> nat \<Rightarrow> error + point list" where
  "tri_points ps tri =
     (case tri of (i, j, k) \<Rightarrow>
        if i < length ps \<and> j < length ps \<and> k < length ps
        then Inr [ps ! i, ps ! j, ps ! k] else Inl IndexError)"

definition ebind :: "error + 'a \<Rightarrow> ('a \<Rightarrow> error + 'b) \<Rightarrow> error + 'b" where
  "ebind m f = (case m of Inl e \<Rightarrow> Inl e | Inr v \<Rightarrow> f v)"

text \<open>The body of the loop over \<open>self.triangles.simplices\<close>, on the pair of
  intermediate buffers.\<close>

definition warp_triangle ::
  "libs \<Rightarrow> Blender \<Rightarrow> point list \<Rightarrow> nat \<times> nat \<times> nat \<Rightarrow> image \<times> image \<Rightarrow> error + image \<times> image" where
  "warp_triangle L b targetPoints tri bufs =
     ebind (tri_points (startPoints b) tri) (\<lambda>currentStartPoints.
     ebind (tri_points (endPoints b) tri) (\<lambda>currentEndPoints.
     ebind (tri_points targetPoints tri) (\<lambda>currentTargetPoints.
     ebind (Affine_init currentStartPoints currentTargetPoints) (\<lambda>a1.
     ebind (transform L a1 (startImage b) (fst bufs)) (\<lambda>targetStart.
     ebind (Affine_init currentEndPoints currentTargetPoints) (\<lambda>a2.
     ebind (transform L a2 (endImage b) (snd bufs)) (\<lambda>targetEnd.
     Inr (targetStart, targetEnd))))))))"

fun warp_all ::
  "libs \<Rightarrow> Blender \<Rightarrow> point list \<Rightarrow> (nat \<times> nat \<times> nat) list \<Rightarrow> image \<times> image
     \<Rightarrow> error + image \<times> image" where
  "warp_all L b targetPoints [] bufs = Inr bufs"
| "warp_all L b targetPoints (tri # rest) bufs =
     (case warp_triangle L b targetPoints tri bufs of
        Inl e \<Rightarrow> Inl e
      | Inr bufs' \<Rightarrow> warp_all L b targetPoints rest bufs')"

text \<open>\<open>Blender.getBlendedImage\<close> (\<open>mode_channels = 1\<close>, blank images of mode \<open>L\<close>) and
  \<open>ColorBlender.getBlendedImage\<close> (\<open>mode_channels = 3\<close>, mode \<open>RGB\<close>): the same code
  otherwise.\<close>

definition getBlendedImage :: "libs \<Rightarrow> nat \<Rightarrow> Blender \<Rightarrow> rat \<Rightarrow> error + image" where
  "getBlendedImage L mode_channels b alpha =
     ebind (interpolate_points alpha (startPoints b) (endPoints b)) (\<lambda>targetPoints.
     ebind (warp_all L b targetPoints (triangles b)
              (blank (height (startImage b)) (width (startImage b)) mode_channels,
               blank (height (endImage b)) (width (endImage b)) mode_channels))
       (\<lambda>bufs. cross_dissolve alpha (fst bufs) (snd bufs)))"

text \<open>\<open>generateMorphVideo\<close> as a method of \<open>Blender\<close> and of \<open>ColorBlender\<close>: the
  blend function is the class's own \<open>getBlendedImage\<close> on the session.\<close>

definition Blender_generateMorphVideo ::
  "libs \<Rightarrow> Blender \<Rightarrow> string \<Rightarrow> int \<Rightarrow> bool \<Rightarrow> files
     \<Rightarrow> files \<times> (error + string list \<times> image list)" where
  "Blender_generateMorphVideo L b targetFolderPath sequenceLength includeReversed fs =
     generateMorphVideo (getBlendedImage L 1 b) (startImage b) (endImage b)
       targetFolderPath sequenceLength includeReversed fs"

definition ColorBlender_generateMorphVideo ::
  "libs \<Rightarrow> Blender \<Rightarrow> string \<Rightarrow> int \<Rightarrow> bool \<Rightarrow> files
     \<Rightarrow> files \<times> (error + string list \<times> image list)" where
  "ColorBlender_generateMorphVideo L b targetFolderPath sequenceLength includeReversed fs =
     generateMorphVideo (getBlendedImage L 3 b) (startImage b) (endImage b)
       targetFolderPath sequenceLength includeReversed fs"

section \<open>Closed forms used in the proofs\<close>

text \<open>The matrix of the six equations for a source triangle, the numerators of the
  solution by Cramer's rule, the affine matrix they give, and the inverse of a matrix
  whose last row is \<open>(0, 0, 1)\<close>.\<close>

definition A6 :: "point \<Rightarrow> point \<Rightarrow> point \<Rightarrow> rat list list" where
  "A6 p q r = [[fst p, snd p, 1, 0, 0, 0],
               [0, 0, 0, fst p, snd p, 1],
               [fst q, snd q, 1, 0, 0, 0],
               [0, 0, 0, fst q, snd q, 1],
               [fst r, snd r, 1, 0, 0, 0],
               [0, 0, 0, fst r, snd r, 1]]"

definition coef1 :: "point \<Rightarrow> point \<Rightarrow> point \<Rightarrow> rat \<Rightarrow> rat \<Rightarrow> rat \<Rightarrow> rat" where
  "coef1 p q r u0 u1 u2 = u0 * (snd q - snd r) + u1 * (snd r - snd p) + u2 * (snd p - snd q)"

definition coef2 :: "point \<Rightarrow> point \<Rightarrow> point \<Rightarrow> rat \<Rightarrow> rat \<Rightarrow> rat \<Rightarrow> rat" where
  "coef2 p q r u0 u1 u2 = u0 * (fst r - fst q) + u1 * (fst p - fst r) + u2 * (fst q - fst p)"

definition coef3 :: "point \<Rightarrow> point \<Rightarrow> point \<Rightarrow> rat \<Rightarrow> rat \<Rightarrow> rat \<Rightarrow> rat" where
  "coef3 p q r u0 u1 u2 =
     u0 * (fst q * snd r - fst r * snd q) + u1 * (fst r * snd p - fst p * snd r)
     + u2 * (fst p * snd q - fst q * snd p)"

definition fit :: "point \<Rightarrow> point \<Rightarrow> point \<Rightarrow> point \<Rightarrow> point \<Rightarrow> point \<Rightarrow> rat list list" where
  "fit p q r p' q' r' =
     [[coef1 p q r (fst p') (fst q') (fst r') / area2 p q r,
       coef2 p q r (fst p') (fst q') (fst r') / area2 p q r,
       coef3 p q r (fst p') (fst q') (fst r') / area2 p q r],
      [coef1 p q r (snd p') (snd q') (snd r') / area2 p q r,
       coef2 p q r (snd p') (snd q') (snd r') / area2 p q r,
       coef3 p q r (snd p') (snd q') (snd r') / area2 p q r],
      [0, 0, 1]]"

definition inv3 :: "rat list list \<Rightarrow> rat list list" where
  "inv3 M = (let a = M ! 0 ! 0; b = M ! 0 ! 1; c = M ! 0 ! 2;
                 d = M ! 1 ! 0; e = M ! 1 ! 1; f = M ! 1 ! 2; k = a * e - b * d
             in [[e / k, - b / k, (b * f - c * e) / k],
                 [- d / k, a / k, (c * d - a * f) / k],
                 [0, 0, 1]])"

text \<open>The pixel that \<open>transform\<close> writes at a masked position.\<close>

definition warped_pixel :: "libs \<Rightarrow> Affine \<Rightarrow> image \<Rightarrow> nat \<times> nat \<Rightarrow> pixel" where
  "warped_pixel L a sourceImage rc = round_pixel L (interp_point sourceImage (inverse_map a rc))"

text \<open>The pixel in column \<open>x\<close> and row \<open>y\<close> lies in the mask of some triangle of the
  triangulation, drawn at the given point positions.\<close>

definition covered :: "libs \<Rightarrow> point list \<Rightarrow> (nat \<times> nat \<times> nat) list \<Rightarrow> nat \<Rightarrow> nat \<Rightarrow> bool" where
  "covered L pts simplices x y =
     list_ex (\<lambda>tri. case tri_points pts tri of Inl e \<Rightarrow> False | Inr vs \<Rightarrow> polygon L vs x y)
             simplices"

text \<open>A simplex whose indices are in range and whose points are not collinear.\<close>

definition nondegenerate :: "point list \<Rightarrow> nat \<times> nat \<times> nat \<Rightarrow> bool" where
  "nondegenerate ps tri =
     (case tri of (i, j, k) \<Rightarrow>
        i < length ps \<and> j < length ps \<and> k < length ps \<and> area2 (ps ! i) (ps ! j) (ps ! k) \<noteq> 0)"

section \<open>Concrete inputs\<close>

text \<open>A translation by \<open>(-10, -10)\<close> as \<open>Affine\<close> builds it, a 2 by 2 grayscale source
  and a 2 by 2 destination filled with 7.\<close>

definition shift_affine :: Affine where
  "shift_affine =
     \<lparr>source = [(10, 10), (11, 10), (10, 11)], destination = [(0, 0), (1, 0), (0, 1)],
      matrix = [[1, 0, - 10], [0, 1, - 10], [0, 0, 1]],
      inverseMatrix = [[1, 0, 10], [0, 1, 10], [0, 0, 1]]\<rparr>"

definition small_source :: image where
  "small_source = [[[1], [2]], [[3], [4]]]"

definition sevens :: image where
  "sevens = [[[7], [7]], [[7], [7]]]"

text \<open>A session on 2 by 2 images with three landmarks and their one triangle; the
  pixel in row 1, column 1 lies outside the triangle.\<close>

definition corner_session :: Blender where
  "corner_session =
     \<lparr>startImage = [[[10], [20]], [[30], [40]]], startPoints = [(0, 0), (1, 0), (0, 1)],
      endImage = [[[50], [60]], [[70], [80]]], endPoints = [(0, 0), (1, 0), (0, 1)],
      triangles = [(0, 1, 2)]\<rparr>"

section \<open>Properties of the affine fit\<close>

lemma if_zero_mult: "(if x = 0 then 0 else s * x * y) = s * x * (y::rat)"
  by simp

lemma det_A6: "det (A6 p q r) = - (area2 p q r)\<^sup>2"
  apply (simp add: A6_def det_def if_zero_mult del: mult_eq_0_iff)
  apply (simp add: area2_def power2_eq_square algebra_simps)
  done

lemma upt6: "[0 ..< 6] = [0, 1, 2, 3, 4, 5]" by (simp add: upt_rec)
lemma upt3: "[0 ..< 3] = [0, 1, 2]" by (simp add: upt_rec)

lemma cramer_numerators:
  "det (replace_col 0 [u0, v0, u1, v1, u2, v2] (A6 p q r)) = - area2 p q r * coef1 p q r u0 u1 u2"
  "det (replace_col 1 [u0, v0, u1, v1, u2, v2] (A6 p q r)) = - area2 p q r * coef2 p q r u0 u1 u2"
  "det (replace_col 2 [u0, v0, u1, v1, u2, v2] (A6 p q r)) = - area2 p q r * coef3 p q r u0 u1 u2"
  "det (replace_col 3 [u0, v0, u1, v1, u2, v2] (A6 p q r)) = - area2 p q r * coef1 p q r v0 v1 v2"
  "det (replace_col 4 [u0, v0, u1, v1, u2, v2] (A6 p q r)) = - area2 p q r * coef2 p q r v0 v1 v2"
  "det (replace_col 5 [u0, v0, u1, v1, u2, v2] (A6 p q r)) = - area2 p q r * coef3 p q r v0 v1 v2"
  by (simp add: A6_def det_def replace_col_def if_zero_mult del: mult_eq_0_iff,
      simp add: area2_def coef1_def coef2_def coef3_def algebra_simps)+

lemma solve_A6:
  assumes "area2 p q r \<noteq> 0"
  shows "linalg_solve (A6 p q r) [u0, v0, u1, v1, u2, v2]
     = Inr [coef1 p q r u0 u1 u2 / area2 p q r, coef2 p q r u0 u1 u2 / area2 p q r,
            coef3 p q r u0 u1 u2 / area2 p q r,
            coef1 p q r v0 v1 v2 / area2 p q r, coef2 p q r v0 v1 v2 / area2 p q r,
            coef3 p q r v0 v1 v2 / area2 p q r]"
proof -
  have d: "det (A6 p q r) \<noteq> 0" using assms by (simp add: det_A6)
  have len: "length (A6 p q r) = 6" by (simp add: A6_def)
  have q: "(- area2 p q r * c) / det (A6 p q r) = c / area2 p q r" for c
    using assms by (simp add: det_A6 power2_eq_square)
  show ?thesis
    unfolding linalg_solve_def len upt6 using d
    by (simp only: if_False list.map cramer_numerators q)
qed


lemma CreateMatrix_fit:
  assumes "area2 p q r \<noteq> 0"
  shows "CreateMatrix [p, q, r] [p', q', r'] = Inr (fit p q r p' q' r')"
  using solve_A6 [OF assms, of "fst p'" "snd p'" "fst q'" "snd q'" "fst r'" "snd r'"]
  by (simp add: CreateMatrix_def A6_def fit_def)


lemma det_affine3: "det [[a, b, c], [d, e, f], [0, 0, 1]] = a * e - b * d"
  by (simp add: det_def if_zero_mult del: mult_eq_0_iff)

lemma linalg_inv_affine3:
  assumes "a * e - b * d \<noteq> 0"
  shows "linalg_inv [[a, b, c], [d, e, f], [0, 0, 1]]
         = Inr [[e / (a * e - b * d), - b / (a * e - b * d), (b * f - c * e) / (a * e - b * d)],
                [- d / (a * e - b * d), a / (a * e - b * d), (c * d - a * f) / (a * e - b * d)],
                [0, 0, 1]]"
proof -
  have nums:
    "det (replace_col 0 [1, 0, 0] [[a, b, c], [d, e, f], [0, 0, 1]]) = e"
    "det (replace_col 0 [0, 1, 0] [[a, b, c], [d, e, f], [0, 0, 1]]) = - b"
    "det (replace_col 0 [0, 0, 1] [[a, b, c], [d, e, f], [0, 0, 1]]) = b * f - c * e"
    "det (replace_col 1 [1, 0, 0] [[a, b, c], [d, e, f], [0, 0, 1]]) = - d"
    "det (replace_col 1 [0, 1, 0] [[a, b, c], [d, e, f], [0, 0, 1]]) = a"
    "det (replace_col 1 [0, 0, 1] [[a, b, c], [d, e, f], [0, 0, 1]]) = c * d - a * f"
    "det (replace_col 2 [1, 0, 0] [[a, b, c], [d, e, f], [0, 0, 1]]) = 0"
    "det (replace_col 2 [0, 1, 0] [[a, b, c], [d, e, f], [0, 0, 1]]) = 0"
    "det (replace_col 2 [0, 0, 1] [[a, b, c], [d, e, f], [0, 0, 1]]) = a * e - b * d"
    by (simp_all add: det_def replace_col_def if_zero_mult algebra_simps del: mult_eq_0_iff)
  have units: "unit_vector 3 0 = [1, 0, 0]" "unit_vector 3 1 = [0, 1, 0]" "unit_vector 3 2 = [0, 0, 1]"
    by (simp_all add: unit_vector_def upt3)
  have len: "length [[a, b, c], [d, e, f], [0, 0, 1 :: rat]] = 3" by simp
  show ?thesis
    unfolding linalg_inv_def len upt3 det_affine3 using assms
    by (simp only: if_False list.map units nums) simp
qed

lemma det_fit:
  assumes "area2 p q r \<noteq> 0"
  shows "(fit p q r p' q' r') ! 0 ! 0 * (fit p q r p' q' r') ! 1 ! 1
         - (fit p q r p' q' r') ! 0 ! 1 * (fit p q r p' q' r') ! 1 ! 0
         = area2 p' q' r' / area2 p q r"
proof -
  have "coef1 p q r (fst p') (fst q') (fst r') * coef2 p q r (snd p') (snd q') (snd r')
        - coef2 p q r (fst p') (fst q') (fst r') * coef1 p q r (snd p') (snd q') (snd r')
        = area2 p q r * area2 p' q' r'"
    by (simp add: coef1_def coef2_def area2_def algebra_simps)
  then show ?thesis using assms
    by (simp add: fit_def field_simps)
qed

lemma linalg_inv_fit:
  assumes "area2 p q r \<noteq> 0" "area2 p' q' r' \<noteq> 0"
  shows "linalg_inv (fit p q r p' q' r') = Inr (inv3 (fit p q r p' q' r'))"
proof -
  obtain a b c d e f where M: "fit p q r p' q' r' = [[a, b, c], [d, e, f], [0, 0, 1]]"
    by (simp add: fit_def)
  have "a * e - b * d = area2 p' q' r' / area2 p q r"
    using det_fit [OF assms(1), of p' q' r'] by (simp add: M)
  then have k: "a * e - b * d \<noteq> 0" using assms by simp
  show ?thesis unfolding M using linalg_inv_affine3 [OF k] by (simp add: inv3_def Let_def)
qed

lemma linalg_inv_fit_singular:
  assumes "area2 p q r \<noteq> 0" "area2 p' q' r' = 0"
  shows "linalg_inv (fit p q r p' q' r') = Inl LinAlgError"
proof -
  obtain a b c d e f where M: "fit p q r p' q' r' = [[a, b, c], [d, e, f], [0, 0, 1]]"
    by (simp add: fit_def)
  have "a * e - b * d = area2 p' q' r' / area2 p q r"
    using det_fit [OF assms(1), of p' q' r'] by (simp add: M)
  then have k: "a * e - b * d = 0" using assms by simp
  show ?thesis unfolding M linalg_inv_def det_affine3 using k by simp
qed

lemma Affine_init_fit:
  assumes "area2 p q r \<noteq> 0" "area2 p' q' r' \<noteq> 0"
  shows "Affine_init [p, q, r] [p', q', r']
         = Inr \<lparr>source = [p, q, r], destination = [p', q', r'],
                matrix = fit p q r p' q' r', inverseMatrix = inv3 (fit p q r p' q' r')\<rparr>"
  by (simp add: Affine_init_def CreateMatrix_fit [OF assms(1)] linalg_inv_fit [OF assms])

lemma matvec_affine3:
  "matvec [[a, b, c], [d, e, f], [0, 0, 1]] [x, y, 1] = [a * x + b * y + c, d * x + e * y + f, 1]"
  by (simp add: matvec_def)

lemma fit_row:
  assumes "area2 p q r \<noteq> 0"
  shows "coef1 p q r u0 u1 u2 / area2 p q r * fst p + coef2 p q r u0 u1 u2 / area2 p q r * snd p
           + coef3 p q r u0 u1 u2 / area2 p q r = u0"
    and "coef1 p q r u0 u1 u2 / area2 p q r * fst q + coef2 p q r u0 u1 u2 / area2 p q r * snd q
           + coef3 p q r u0 u1 u2 / area2 p q r = u1"
    and "coef1 p q r u0 u1 u2 / area2 p q r * fst r + coef2 p q r u0 u1 u2 / area2 p q r * snd r
           + coef3 p q r u0 u1 u2 / area2 p q r = u2"
proof -
  have e: "coef1 p q r u0 u1 u2 * fst p + coef2 p q r u0 u1 u2 * snd p + coef3 p q r u0 u1 u2
           = u0 * area2 p q r"
          "coef1 p q r u0 u1 u2 * fst q + coef2 p q r u0 u1 u2 * snd q + coef3 p q r u0 u1 u2
           = u1 * area2 p q r"
          "coef1 p q r u0 u1 u2 * fst r + coef2 p q r u0 u1 u2 * snd r + coef3 p q r u0 u1 u2
           = u2 * area2 p q r"
    by (simp_all add: coef1_def coef2_def coef3_def area2_def algebra_simps)
  have s: "x / area2 p q r * s + y / area2 p q r * t + z / area2 p q r
           = (x * s + y * t + z) / area2 p q r" for x y z s t
    by (simp add: add_divide_distrib)
  show "coef1 p q r u0 u1 u2 / area2 p q r * fst p + coef2 p q r u0 u1 u2 / area2 p q r * snd p
           + coef3 p q r u0 u1 u2 / area2 p q r = u0"
    and "coef1 p q r u0 u1 u2 / area2 p q r * fst q + coef2 p q r u0 u1 u2 / area2 p q r * snd q
           + coef3 p q r u0 u1 u2 / area2 p q r = u1"
    and "coef1 p q r u0 u1 u2 / area2 p q r * fst r + coef2 p q r u0 u1 u2 / area2 p q r * snd r
           + coef3 p q r u0 u1 u2 / area2 p q r = u2"
    unfolding s e using assms by simp_all
qed

lemma fit_maps_vertices:
  assumes "area2 p q r \<noteq> 0"
  shows "matvec (fit p q r p' q' r') [fst p, snd p, 1] = [fst p', snd p', 1]"
    and "matvec (fit p q r p' q' r') [fst q, snd q, 1] = [fst q', snd q', 1]"
    and "matvec (fit p q r p' q' r') [fst r, snd r, 1] = [fst r', snd r', 1]"
  unfolding fit_def matvec_affine3 by (simp_all only: fit_row [OF assms])

lemma inv3_left_inverse:
  assumes "M = [[a, b, c], [d, e, f], [0, 0, 1]]" "a * e - b * d \<noteq> 0"
  shows "matvec (inv3 M) (matvec M [x, y, 1]) = [x, y, 1]"
proof -
  define k where "k = a * e - b * d"
  have k: "k \<noteq> 0" using assms(2) by (simp add: k_def)
  have n1: "e * (a * x + b * y + c) - b * (d * x + e * y + f) + (b * f - c * e) = x * k"
    and n2: "a * (d * x + e * y + f) - d * (a * x + b * y + c) + (c * d - a * f) = y * k"
    by (simp_all add: k_def algebra_simps)
  have 1: "e / k * (a * x + b * y + c) + - b / k * (d * x + e * y + f) + (b * f - c * e) / k = x"
  proof -
    have "e / k * (a * x + b * y + c) + - b / k * (d * x + e * y + f) + (b * f - c * e) / k
          = (e * (a * x + b * y + c) - b * (d * x + e * y + f) + (b * f - c * e)) / k"
      by (simp add: add_divide_distrib diff_divide_distrib)
    then show ?thesis unfolding n1 using k by simp
  qed
  have 2: "- d / k * (a * x + b * y + c) + a / k * (d * x + e * y + f) + (c * d - a * f) / k = y"
  proof -
    have "- d / k * (a * x + b * y + c) + a / k * (d * x + e * y + f) + (c * d - a * f) / k
          = (a * (d * x + e * y + f) - d * (a * x + b * y + c) + (c * d - a * f)) / k"
      by (simp add: add_divide_distrib diff_divide_distrib)
    then show ?thesis unfolding n2 using k by simp
  qed
  have i: "inv3 M = [[e / k, - b / k, (b * f - c * e) / k],
                     [- d / k, a / k, (c * d - a * f) / k], [0, 0, 1]]"
    by (simp add: inv3_def assms(1) k_def Let_def)
  show ?thesis unfolding i unfolding assms(1) matvec_affine3 by (simp only: 1 2)
qed

text \<open>
  C6. For a source triangle and a destination triangle of non-zero area the
  construction succeeds; the matrix sends each source vertex (in homogeneous
  coordinates) to the corresponding destination vertex, and the stored inverse matrix
  applied after the matrix returns every point. In exact arithmetic the equalities are
  exact.
\<close>

theorem Affine_fits_and_inverts:
  assumes "area2 p q r \<noteq> 0" "area2 p' q' r' \<noteq> 0"
  shows "\<exists>a. Affine_init [p, q, r] [p', q', r'] = Inr a
           \<and> matvec (matrix a) [fst p, snd p, 1] = [fst p', snd p', 1]
           \<and> matvec (matrix a) [fst q, snd q, 1] = [fst q', snd q', 1]
           \<and> matvec (matrix a) [fst r, snd r, 1] = [fst r', snd r', 1]
           \<and> (\<forall>x y. matvec (inverseMatrix a) (matvec (matrix a) [x, y, 1]) = [x, y, 1])"
proof -
  obtain a b c d e f where M: "fit p q r p' q' r' = [[a, b, c], [d, e, f], [0, 0, 1]]"
    by (simp add: fit_def)
  have "a * e - b * d = area2 p' q' r' / area2 p q r"
    using det_fit [OF assms(1), of p' q' r'] by (simp add: M)
  then have k: "a * e - b * d \<noteq> 0" using assms by simp
  show ?thesis
    using Affine_init_fit [OF assms] fit_maps_vertices [OF assms(1), of p' q' r']
      inv3_left_inverse [OF M k]
    by simp
qed

theorem Affine_fits_and_inverts_witness:
  "area2 (0, 0) (2, 0) (0, 2) \<noteq> 0 \<and> area2 (1, 1) (2, 1) (1, 2) \<noteq> 0
   \<and> (\<exists>a. Affine_init [(0, 0), (2, 0), (0, 2)] [(1, 1), (2, 1), (1, 2)] = Inr a
          \<and> matvec (matrix a) [2, 0, 1] = [2, 1, 1]
          \<and> matvec (inverseMatrix a) (matvec (matrix a) [5, 7, 1]) = [5, 7, 1])"
proof -
  have s: "area2 (0, 0) (2, 0) (0, 2) \<noteq> 0" and d: "area2 (1, 1) (2, 1) (1, 2) \<noteq> 0"
    by (simp_all add: area2_def)
  from Affine_fits_and_inverts [OF s d] obtain a where
    "Affine_init [(0, 0), (2, 0), (0, 2)] [(1, 1), (2, 1), (1, 2)] = Inr a"
    "matvec (matrix a) [fst (2 :: rat, 0 :: rat), snd (2 :: rat, 0 :: rat), 1]
       = [fst (2 :: rat, 1 :: rat), snd (2 :: rat, 1 :: rat), 1]"
    "\<forall>x y. matvec (inverseMatrix a) (matvec (matrix a) [x, y, 1]) = [x, y, 1]"
    by blast
  then have "Affine_init [(0, 0), (2, 0), (0, 2)] [(1, 1), (2, 1), (1, 2)] = Inr a
          \<and> matvec (matrix a) [2, 0, 1] = [2, 1, 1]
          \<and> matvec (inverseMatrix a) (matvec (matrix a) [5, 7, 1]) = [5, 7, 1]"
    by simp
  then show ?thesis using s d by blast
qed



section \<open>Properties of transform\<close>

lemma enumerate_map_upt: "enumerate 0 (map f [0 ..< n]) = map (\<lambda>i. (i, f i)) [0 ..< n]"
  by (simp add: enumerate_eq_zip zip_map2 zip_same_conv_map)

lemma find_nonzero_Mask:
  "find_nonzero (Mask L a dst)
   = concat (map (\<lambda>r. map (\<lambda>c. (r, c))
                         (filter (\<lambda>c. polygon L (destination a) c r) [0 ..< width dst]))
                 [0 ..< height dst])"
  by (simp add: find_nonzero_def Mask_def enumerate_map_upt filter_map comp_def)

lemma set_find_nonzero_Mask:
  "set (find_nonzero (Mask L a dst))
   = {(r, c). r < height dst \<and> c < width dst \<and> polygon L (destination a) c r}"
  unfolding find_nonzero_Mask by auto

lemma rectangularD:
  assumes "rectangular h w n img"
  shows "length img = h" "height img = h"
    and "r < h \<Longrightarrow> length (img ! r) = w"
    and "r < h \<Longrightarrow> c < w \<Longrightarrow> length (img ! r ! c) = n"
    and "0 < h \<Longrightarrow> width img = w"
    and "0 < h \<Longrightarrow> 0 < w \<Longrightarrow> channels img = n"
proof -
  show l: "length img = h" "height img = h"
    using assms by (simp_all add: rectangular_def height_def)
  have rows: "\<forall>row\<in>set img. length row = w \<and> (\<forall>p\<in>set row. length p = n)"
    using assms by (simp add: rectangular_def list_all_iff)
  show row: "length (img ! r) = w" if "r < h" for r
    using rows that l by simp
  show px: "length (img ! r ! c) = n" if "r < h" "c < w" for r c
    using rows that l by (metis nth_mem)
  show "width img = w" if hp: "0 < h"
    using row [of 0] hp l by (cases img) (simp_all add: width_def)
  show "channels img = n" if hp: "0 < h" and wp: "0 < w"
  proof -
    obtain r0 rs where i: "img = r0 # rs" using hp l by (cases img) auto
    have "length r0 = w" using row [of 0] hp i by simp
    then obtain p0 ps where r0: "r0 = p0 # ps" using wp by (cases r0) auto
    have "length p0 = n" using px [of 0 0] hp wp i r0 by simp
    then show ?thesis by (simp add: channels_def i r0)
  qed
qed

lemma rectangularI:
  assumes "length img = h" "\<And>r. r < h \<Longrightarrow> length (img ! r) = w"
    "\<And>r c. r < h \<Longrightarrow> c < w \<Longrightarrow> length (img ! r ! c) = n"
  shows "rectangular h w n img"
  unfolding rectangular_def list_all_length using assms by simp

lemma rectangular_blank: "rectangular h w n (blank h w n)"
  by (rule rectangularI) (simp_all add: blank_def)

lemma set_pixel_length [simp]: "length (set_pixel img rc p) = length img"
  by (simp add: set_pixel_def)

lemma set_pixel_row_length [simp]: "length (set_pixel img rc p ! r) = length (img ! r)"
proof (cases "fst rc = r")
  case True
  then show ?thesis
    by (cases "r < length img") (simp_all add: set_pixel_def list_update_beyond)
next
  case False
  then show ?thesis by (simp add: set_pixel_def)
qed

lemma set_pixel_nth:
  assumes "fst rc < length img" "snd rc < length (img ! fst rc)" "r < length img"
  shows "set_pixel img rc p ! r ! c = (if (r, c) = rc then p else img ! r ! c)"
  using assms by (cases rc) (auto simp: set_pixel_def nth_list_update)

lemma assign_pixels_Cons:
  "assign_pixels img ((rc, p) # ws) = assign_pixels (set_pixel img rc p) ws"
  by (simp add: assign_pixels_def)

lemma assign_pixels_nth:
  assumes "\<forall>rc\<in>set coords. fst rc < length img \<and> snd rc < length (img ! fst rc)"
    and "r < length img"
  shows "length (assign_pixels img (map (\<lambda>rc. (rc, g rc)) coords)) = length img
       \<and> length (assign_pixels img (map (\<lambda>rc. (rc, g rc)) coords) ! r) = length (img ! r)
       \<and> assign_pixels img (map (\<lambda>rc. (rc, g rc)) coords) ! r ! c
           = (if (r, c) \<in> set coords then g (r, c) else img ! r ! c)"
  using assms
proof (induction coords arbitrary: img)
  case Nil
  show ?case by (simp add: assign_pixels_def)
next
  case (Cons x xs)
  let ?img = "set_pixel img x (g x)"
  have b: "\<forall>rc\<in>set xs. fst rc < length ?img \<and> snd rc < length (?img ! fst rc)"
    using Cons.prems(1) by simp
  have r: "r < length ?img" using Cons.prems(2) by simp
  have x: "fst x < length img" "snd x < length (img ! fst x)" using Cons.prems(1) by simp_all
  note IH = Cons.IH [OF b r]
  show ?case
    using IH set_pixel_nth [OF x Cons.prems(2), where c = c and p = "g x"]
    by (auto simp: assign_pixels_Cons)
qed

lemma zip_map_self: "zip xs (map f xs) = map (\<lambda>x. (x, f x)) xs"
  by (induction xs) simp_all

lemma transform_closed_form:
  assumes "2 \<le> height sourceImage" "2 \<le> width sourceImage"
    "channels sourceImage = channels destinationImage"
  shows "transform L a sourceImage destinationImage
         = Inr (assign_pixels destinationImage
                  (map (\<lambda>rc. (rc, warped_pixel L a sourceImage rc))
                       (find_nonzero (Mask L a destinationImage))))"
  using assms by (simp add: transform_def interpn_def Let_def zip_map_self warped_pixel_def)

lemma transform_pixel:
  assumes rect: "rectangular h w n destinationImage"
    and src: "2 \<le> height sourceImage" "2 \<le> width sourceImage"
    and ch: "channels sourceImage = channels destinationImage"
    and r: "r < h" and c: "c < w"
  shows "\<exists>out. transform L a sourceImage destinationImage = Inr out
           \<and> length out = h \<and> length (out ! r) = w
           \<and> out ! r ! c = (if polygon L (destination a) c r
                            then warped_pixel L a sourceImage (r, c)
                            else destinationImage ! r ! c)"
proof -
  note R = rectangularD [OF rect]
  have hw: "height destinationImage = h" "width destinationImage = w"
    using R(2) R(5) r by simp_all
  let ?sparse = "find_nonzero (Mask L a destinationImage)"
  have bounds: "\<forall>rc\<in>set ?sparse. fst rc < length destinationImage
                  \<and> snd rc < length (destinationImage ! fst rc)"
    unfolding set_find_nonzero_Mask hw using R(1) R(3) by auto
  have rl: "r < length destinationImage" using r R(1) by simp
  have mem: "(r, c) \<in> set ?sparse \<longleftrightarrow> polygon L (destination a) c r"
    unfolding set_find_nonzero_Mask hw using r c by simp
  show ?thesis
    unfolding transform_closed_form [OF src ch]
    using assign_pixels_nth [OF bounds rl, of "warped_pixel L a sourceImage" c] mem R(1) R(3) [OF r]
    by simp
qed

lemma warped_pixel_outside:
  "outside sourceImage (inverse_map a rc) \<Longrightarrow>
   warped_pixel L a sourceImage rc = replicate (channels sourceImage) (nan_uint8 L)"
  by (simp add: warped_pixel_def interp_point_def round_pixel_def)

lemma upt2: "[0 ..< 2] = [0, 1]" by (simp add: upt_rec)

lemma shift_affine_facts:
  "polygon reference_libs (destination shift_affine) 0 0"
  "\<not> polygon reference_libs (destination shift_affine) 1 1"
  "outside small_source (inverse_map shift_affine (0, 0))"
  "rectangular 2 2 1 sevens"
  "height small_source = 2" "width small_source = 2"
  "channels small_source = channels sevens"
  by (simp_all add: reference_libs_def shift_affine_def closed_triangle_def area2_def
        outside_def inverse_map_def matvec_def small_source_def sevens_def height_def width_def
        channels_def rectangular_def)

text \<open>
  C2, as the code has it. \<open>transform\<close> assigns at every masked position of the
  destination, whatever the sample. For a destination buffer with rows of one width and
  a source with at least two rows and two columns and the destination's number of
  channels, the call raises nothing; a masked pixel whose inverse-mapped coordinate lies
  outside the source is overwritten, in every channel, with the uint8 that the
  conversion of NaN gives; the pixels outside the mask keep their value.
\<close>

theorem transform_overwrites_outside_samples:
  assumes "rectangular h w n destinationImage"
    and "2 \<le> height sourceImage" "2 \<le> width sourceImage"
    and "channels sourceImage = channels destinationImage"
    and "r < h" "c < w"
  shows "\<exists>out. transform L a sourceImage destinationImage = Inr out
           \<and> (polygon L (destination a) c r \<and> outside sourceImage (inverse_map a (r, c))
                \<longrightarrow> out ! r ! c = replicate (channels sourceImage) (nan_uint8 L))
           \<and> (\<not> polygon L (destination a) c r \<longrightarrow> out ! r ! c = destinationImage ! r ! c)"
  using transform_pixel [OF assms, of L a] warped_pixel_outside [of sourceImage a "(r, c)" L]
  by auto

theorem transform_overwrites_outside_samples_witness:
  "rectangular 2 2 1 sevens \<and> polygon reference_libs (destination shift_affine) 0 0
   \<and> outside small_source (inverse_map shift_affine (0, 0))
   \<and> \<not> polygon reference_libs (destination shift_affine) 1 1
   \<and> (\<exists>out. transform reference_libs shift_affine small_source sevens = Inr out
          \<and> out ! 0 ! 0 = [0] \<and> out ! 1 ! 1 = [7])"
proof -
  note f = shift_affine_facts
  have s: "2 \<le> height small_source" "2 \<le> width small_source" by (simp_all add: f)
  from transform_overwrites_outside_samples [OF f(4) s f(7), of 0 0 reference_libs shift_affine]
  obtain out where o: "transform reference_libs shift_affine small_source sevens = Inr out"
    and o00: "out ! 0 ! 0 = replicate (channels small_source) (nan_uint8 reference_libs)"
    using f(1,3) by auto
  from transform_overwrites_outside_samples [OF f(4) s f(7), of 1 1 reference_libs shift_affine]
  have o11: "out ! 1 ! 1 = sevens ! 1 ! 1"
    using f(2) o by auto
  have "out ! 0 ! 0 = [0]" using o00 by (simp add: small_source_def channels_def reference_libs_def)
  moreover have "out ! 1 ! 1 = [7]" using o11 by (simp add: sevens_def)
  ultimately show ?thesis using o f(1-4) by blast
qed

text \<open>The claim as the specification words it fails on the destination filled with 7:
  the pixel in row 0, column 0 is masked, its sample point \<open>(10, 10)\<close> lies outside the
  2 by 2 source, and the call leaves 0 there, not 7.\<close>

theorem transform_overwrites_destination:
  "Affine_init [(10, 10), (11, 10), (10, 11)] [(0, 0), (1, 0), (0, 1)] = Inr shift_affine
   \<and> polygon reference_libs (destination shift_affine) 0 0
   \<and> outside small_source (inverse_map shift_affine (0, 0))
   \<and> sevens ! 0 ! 0 = [7]
   \<and> transform reference_libs shift_affine small_source sevens = Inr [[[0], [0]], [[0], [7]]]"
proof -
  have a: "area2 (10, 10) (11, 10) (10, 11) \<noteq> 0" "area2 (0, 0) (1, 0) (0, 1) \<noteq> 0"
    by (simp_all add: area2_def)
  have i: "Affine_init [(10, 10), (11, 10), (10, 11)] [(0, 0), (1, 0), (0, 1)] = Inr shift_affine"
    unfolding Affine_init_fit [OF a]
    by (simp add: shift_affine_def fit_def inv3_def coef1_def coef2_def coef3_def area2_def)
  have t: "transform reference_libs shift_affine small_source sevens
           = Inr [[[0], [0]], [[0], [7]]]"
    by (simp add: transform_def interpn_def Let_def find_nonzero_Mask
          reference_libs_def shift_affine_def closed_triangle_def area2_def
          outside_def inverse_map_def matvec_def small_source_def sevens_def height_def
          width_def channels_def interp_point_def round_pixel_def assign_pixels_def
          set_pixel_def upt2)
  have s: "sevens ! 0 ! 0 = [7]" by (simp add: sevens_def)
  show ?thesis using i t s shift_affine_facts(1,3) by blast
qed

section \<open>Properties of the cross-dissolve\<close>









section \<open>Properties of the sequence generator\<close>

lemma FrameName_small:
  "FrameName 1 = ''frame001.jpg''" "FrameName 2 = ''frame002.jpg''"
  "FrameName 3 = ''frame003.jpg''" "FrameName 4 = ''frame004.jpg''"
  "FrameName 5 = ''frame005.jpg''" "FrameName 6 = ''frame006.jpg''"
  "FrameName 7 = ''frame007.jpg''" "FrameName 8 = ''frame008.jpg''"
  "FrameName 9 = ''frame009.jpg''" "FrameName 10 = ''frame010.jpg''"
  by code_simp+

lemma read_frames_total:
  "set ps \<subseteq> dom fs \<Longrightarrow> read_frames fs ps = Inr (map (\<lambda>p. the (fs p)) ps)"
  by (induction ps) auto

lemma reverse_loop_files_dom:
  "set (fileList st) \<subseteq> dom (files st) \<Longrightarrow>
   set (fileList (reverse_loop folder imgs n st)) \<subseteq> dom (files (reverse_loop folder imgs n st))"
proof (induction imgs arbitrary: n st)
  case Nil
  then show ?case by simp
next
  case (Cons img imgs)
  let ?st = "st\<lparr>files := SaveImage img (folder @ ''/'' @ FrameName n) (files st),
                  fileList := fileList st @ [folder @ ''/'' @ FrameName n]\<rparr>"
  have "set (fileList ?st) \<subseteq> dom (files ?st)"
    using Cons.prems by (auto simp: SaveImage_def)
  then show ?case using Cons.IH [of ?st "n + 1"] by simp
qed

lemma reverse_loop_fileList:
  "fileList (reverse_loop folder imgs n st)
   = fileList st @ map (\<lambda>i. folder @ ''/'' @ FrameName (n + int i)) [0 ..< length imgs]"
proof (induction imgs arbitrary: n st)
  case Nil
  show ?case by simp
next
  case (Cons img imgs)
  have "map (\<lambda>i. folder @ ''/'' @ FrameName (n + int i)) [0 ..< Suc (length imgs)]
        = (folder @ ''/'' @ FrameName n)
          # map (\<lambda>i. folder @ ''/'' @ FrameName (n + 1 + int i)) [0 ..< length imgs]"
    by (simp add: upt_conv_Cons map_Suc_upt [symmetric] add.assoc del: upt_Suc)
  then show ?case using Cons.IH by simp
qed

text \<open>
  C3, as the code has it. The generator has no check of \<open>sequenceLength\<close>. For
  \<open>sequenceLength = 1\<close> it fails with \<open>ZeroDivisionError\<close> at the computation of the
  increment, after the start image has been saved as \<open>frame001.jpg\<close> and before any
  other frame. For \<open>sequenceLength < 1\<close> it raises nothing: the start and end images
  are saved and listed (and listed once more each when the sequence is reversed), with
  no blended frame.
\<close>

theorem generateMorphVideo_short_sequence:
  "(sequenceLength = 1 \<longrightarrow>
      generateMorphVideo blend startImg endImg folder sequenceLength includeReversed fs
      = (fs(folder @ ''/frame001.jpg'' \<mapsto> startImg), Inl ZeroDivisionError))
   \<and> (sequenceLength < 1 \<longrightarrow>
      (\<exists>video. snd (generateMorphVideo blend startImg endImg folder sequenceLength includeReversed fs)
         = Inr ([folder @ ''/'' @ FrameName 1, folder @ ''/'' @ FrameName sequenceLength]
                @ (if includeReversed
                   then [folder @ ''/'' @ FrameName (sequenceLength + 1),
                         folder @ ''/'' @ FrameName (sequenceLength + 2)]
                   else []), video)))"
proof (intro conjI impI)
  assume "sequenceLength = 1"
  then show "generateMorphVideo blend startImg endImg folder sequenceLength includeReversed fs
      = (fs(folder @ ''/frame001.jpg'' \<mapsto> startImg), Inl ZeroDivisionError)"
    by (simp add: generateMorphVideo_def save_frame_def SaveImage_def FrameName_small)
next
  assume short: "sequenceLength < 1"
  let ?st3 = "save_frame folder endImg sequenceLength
     (save_frame folder startImg 1 \<lparr>files = fs, imageList = [], fileList = []\<rparr>)"
  let ?st4 = "if includeReversed
     then reverse_loop folder (rev (imageList ?st3)) (sequenceLength + 1) ?st3 else ?st3"
  let ?paths = "[folder @ ''/'' @ FrameName 1, folder @ ''/'' @ FrameName sequenceLength]
                @ (if includeReversed
                   then [folder @ ''/'' @ FrameName (sequenceLength + 1),
                         folder @ ''/'' @ FrameName (sequenceLength + 2)]
                   else [])"
  have dom3: "set (fileList ?st3) \<subseteq> dom (files ?st3)"
    by (auto simp: save_frame_def SaveImage_def)
  have dom4: "set (fileList ?st4) \<subseteq> dom (files ?st4)"
    using dom3 reverse_loop_files_dom [OF dom3] by simp
  have fl4: "fileList ?st4 = ?paths"
    by (simp add: reverse_loop_fileList) (simp add: save_frame_def upt_rec add.commute)
  have rf: "read_frames (files ?st4) (fileList ?st4)
            = Inr (map (\<lambda>p. the (files ?st4 p)) (fileList ?st4))"
    by (rule read_frames_total [OF dom4])
  have "snd (generateMorphVideo blend startImg endImg folder sequenceLength includeReversed fs)
        = (case read_frames (files ?st4) (fileList ?st4) of
             Inl e \<Rightarrow> Inl e | Inr video \<Rightarrow> Inr (fileList ?st4, video))"
    using short by (simp add: generateMorphVideo_def Let_def)
  then have "snd (generateMorphVideo blend startImg endImg folder sequenceLength includeReversed fs)
        = Inr (fileList ?st4, map (\<lambda>p. the (files ?st4 p)) (fileList ?st4))"
    by (simp only: rf sum.case)
  then have "\<exists>video. snd (generateMorphVideo blend startImg endImg folder sequenceLength includeReversed fs)
        = Inr (fileList ?st4, video)"
    by blast
  then show "\<exists>video. snd (generateMorphVideo blend startImg endImg folder sequenceLength includeReversed fs)
         = Inr (?paths, video)"
    by (simp only: fl4)
qed

theorem generateMorphVideo_short_sequence_witness:
  "Blender_generateMorphVideo reference_libs corner_session ''out'' 1 True Map.empty
     = (Map.empty(''out/frame001.jpg'' \<mapsto> startImage corner_session), Inl ZeroDivisionError)
   \<and> (\<exists>video. snd (Blender_generateMorphVideo reference_libs corner_session ''out'' (- 1) False
                       Map.empty)
         = Inr ([''out/frame001.jpg'', ''out/frame-01.jpg''], video))"
proof -
  have n: "FrameName (- 1) = ''frame-01.jpg''" by code_simp
  show ?thesis
    unfolding Blender_generateMorphVideo_def
    using generateMorphVideo_short_sequence
            [of 1 "getBlendedImage reference_libs 1 corner_session" "startImage corner_session"
               "endImage corner_session" "''out''" True Map.empty]
      generateMorphVideo_short_sequence
            [of "- 1" "getBlendedImage reference_libs 1 corner_session" "startImage corner_session"
               "endImage corner_session" "''out''" False Map.empty]
    by (simp add: FrameName_small n)
qed

text \<open>The claim as the specification words it fails for \<open>sequenceLength = 0\<close>: the call
  returns, having saved and listed two frames, the start and the end image.\<close>

theorem generateMorphVideo_length_zero_accepted:
  "snd (Blender_generateMorphVideo reference_libs corner_session ''out'' 0 False Map.empty)
     = Inr ([''out/frame001.jpg'', ''out/frame000.jpg''],
            [[[[10], [20]], [[30], [40]]], [[[50], [60]], [[70], [80]]]])"
proof -
  have n: "FrameName 0 = ''frame000.jpg''" by code_simp
  show ?thesis
    by (simp add: Blender_generateMorphVideo_def generateMorphVideo_def save_frame_def
          SaveImage_def FrameName_small n corner_session_def)
qed

lemma save_frame_dom:
  "set (fileList st) \<subseteq> dom (files st) \<Longrightarrow>
   set (fileList (save_frame folder img k st)) \<subseteq> dom (files (save_frame folder img k st))"
  by (auto simp: save_frame_def SaveImage_def)

lemma blend_loop_all_succeed:
  "\<exists>st'. blend_loop (\<lambda>a. Inr (B a)) folder inc idx alpha st = (st', None)
     \<and> imageList st' = imageList st @ map (\<lambda>j. B (alpha + of_nat (j + 1) * inc)) [0 ..< length idx]
     \<and> fileList st' = fileList st @ map (\<lambda>i. folder @ ''/'' @ FrameName (int i + 1)) idx
     \<and> (set (fileList st) \<subseteq> dom (files st) \<longrightarrow> set (fileList st') \<subseteq> dom (files st'))"
proof (induction idx arbitrary: alpha st)
  case Nil
  show ?case by simp
next
  case (Cons i idx)
  let ?st1 = "save_frame folder (B (alpha + inc)) (int i + 1) st"
  from Cons.IH [of "alpha + inc" ?st1] obtain st' where
    run: "blend_loop (\<lambda>a. Inr (B a)) folder inc idx (alpha + inc) ?st1 = (st', None)"
    and il: "imageList st' = imageList ?st1
               @ map (\<lambda>j. B (alpha + inc + of_nat (j + 1) * inc)) [0 ..< length idx]"
    and fl: "fileList st' = fileList ?st1 @ map (\<lambda>i. folder @ ''/'' @ FrameName (int i + 1)) idx"
    and dm: "set (fileList ?st1) \<subseteq> dom (files ?st1) \<longrightarrow> set (fileList st') \<subseteq> dom (files st')"
    by blast
  have shift: "map (\<lambda>j. B (alpha + of_nat (j + 1) * inc)) [0 ..< Suc (length idx)]
        = B (alpha + inc) # map (\<lambda>j. B (alpha + inc + of_nat (j + 1) * inc)) [0 ..< length idx]"
    by (simp add: upt_conv_Cons map_Suc_upt [symmetric] algebra_simps del: upt_Suc)
  have "imageList st' = imageList st
          @ map (\<lambda>j. B (alpha + of_nat (j + 1) * inc)) [0 ..< length (i # idx)]"
    using il shift by (simp add: save_frame_def)
  moreover have "fileList st' = fileList st
          @ map (\<lambda>i. folder @ ''/'' @ FrameName (int i + 1)) (i # idx)"
    using fl by (simp add: save_frame_def)
  moreover have "set (fileList st) \<subseteq> dom (files st) \<longrightarrow> set (fileList st') \<subseteq> dom (files st')"
    using dm save_frame_dom [of st folder "B (alpha + inc)" "int i + 1"] by blast
  ultimately show ?case using run by simp
qed

lemma blend_loop_forward:
  assumes "2 \<le> sequenceLength"
  shows "\<exists>st'. blend_loop (\<lambda>a. Inr (B a)) folder (1 / of_int ((sequenceLength - 2) + 1))
                 [0 ..< nat (sequenceLength - 2)] 0 st = (st', None)
          \<and> imageList st' = imageList st
               @ map (\<lambda>k. B (of_nat k / of_int (sequenceLength - 1))) [1 ..< nat (sequenceLength - 1)]
          \<and> fileList st' = fileList st
               @ map (\<lambda>k. folder @ ''/'' @ FrameName (int k)) [1 ..< nat (sequenceLength - 1)]
          \<and> (set (fileList st) \<subseteq> dom (files st) \<longrightarrow> set (fileList st') \<subseteq> dom (files st'))"
proof -
  let ?n = "nat (sequenceLength - 2)"
  from blend_loop_all_succeed [of B folder "1 / of_int ((sequenceLength - 2) + 1)" "[0 ..< ?n]" 0 st]
  obtain st' where
    run: "blend_loop (\<lambda>a. Inr (B a)) folder (1 / of_int ((sequenceLength - 2) + 1))
            [0 ..< ?n] 0 st = (st', None)"
    and il: "imageList st' = imageList st
               @ map (\<lambda>j. B (0 + of_nat (j + 1) * (1 / of_int ((sequenceLength - 2) + 1)))) [0 ..< length [0 ..< ?n]]"
    and fl: "fileList st' = fileList st @ map (\<lambda>i. folder @ ''/'' @ FrameName (int i + 1)) [0 ..< ?n]"
    and dm: "set (fileList st) \<subseteq> dom (files st) \<longrightarrow> set (fileList st') \<subseteq> dom (files st')"
    by blast
  have n: "nat (sequenceLength - 1) = Suc ?n" using assms by simp
  have m1: "map (\<lambda>j. B (0 + of_nat (j + 1) * (1 / of_int ((sequenceLength - 2) + 1)))) [0 ..< length [0 ..< ?n]]
            = map (\<lambda>k. B (of_nat k / of_int (sequenceLength - 1))) [1 ..< nat (sequenceLength - 1)]"
    unfolding n by (simp add: map_Suc_upt [symmetric] del: upt_Suc)
  have m2: "map (\<lambda>i. folder @ ''/'' @ FrameName (int i + 1)) [0 ..< ?n]
            = map (\<lambda>k. folder @ ''/'' @ FrameName (int k)) [1 ..< nat (sequenceLength - 1)]"
    unfolding n by (simp add: map_Suc_upt [symmetric] add.commute del: upt_Suc)
  show ?thesis using run il fl dm unfolding m1 m2 by blast
qed

text \<open>
  The intermediate frames for any \<open>sequenceLength\<close> of at least 2, when every blend
  succeeds: the \<open>k\<close>-th of them (\<open>k = 1 .. sequenceLength - 2\<close>) is the blend at
  \<open>alpha = k / (sequenceLength - 1)\<close>, and it is saved and listed under
  \<open>_FrameName(k)\<close>.
\<close>

lemma blend_loop_alphas:
  assumes "2 \<le> sequenceLength"
  shows "\<exists>st'. blend_loop (\<lambda>a. Inr (B a)) folder (1 / of_int ((sequenceLength - 2) + 1))
                 [0 ..< nat (sequenceLength - 2)] 0 st = (st', None)
          \<and> imageList st' = imageList st
               @ map (\<lambda>k. B (of_nat k / of_int (sequenceLength - 1))) [1 ..< nat (sequenceLength - 1)]
          \<and> fileList st' = fileList st
               @ map (\<lambda>k. folder @ ''/'' @ FrameName (int k)) [1 ..< nat (sequenceLength - 1)]"
  using blend_loop_forward [OF assms, of B folder st] by blast

lemma blend_loop_alphas_example:
  "(2 :: int) \<le> 5
   \<and> (\<exists>st'. blend_loop (\<lambda>a. Inr [[[word_of_int \<lfloor>100 * a\<rfloor>]]]) ''out'' (1 / of_int ((5 - 2) + 1))
              [0 ..< nat (5 - 2)] 0 \<lparr>files = Map.empty, imageList = [], fileList = []\<rparr> = (st', None)
        \<and> imageList st' = [[[[25]]], [[[50]]], [[[75]]]]
        \<and> fileList st' = [''out/frame001.jpg'', ''out/frame002.jpg'', ''out/frame003.jpg''])"
proof -
  have u: "[1 ..< nat (5 - 1)] = [1, 2, 3]" by (simp add: upt_rec)
  from blend_loop_alphas [of 5 "\<lambda>a. [[[word_of_int \<lfloor>100 * a\<rfloor>]]]" "''out''"
         "\<lparr>files = Map.empty, imageList = [], fileList = []\<rparr>"]
  show ?thesis unfolding u by (simp add: FrameName_small)
qed

text \<open>
  The list of paths for any \<open>sequenceLength\<close> of at least 2, when every blend succeeds:
  \<open>frame001\<close>, then the names with the numbers \<open>1 .. sequenceLength - 2\<close>, then the name
  with the number \<open>sequenceLength\<close>, and with the reversal the names with the numbers
  \<open>sequenceLength + 1 .. 2 * sequenceLength\<close>. As many frames are read back for the
  video as paths are listed.
\<close>

lemma generateMorphVideo_paths:
  assumes "2 \<le> sequenceLength"
  shows "\<exists>video. snd (generateMorphVideo (\<lambda>a. Inr (B a)) startImg endImg folder sequenceLength
                        includeReversed fs)
           = Inr ((folder @ ''/'' @ FrameName 1)
                  # map (\<lambda>k. folder @ ''/'' @ FrameName (int k)) [1 ..< nat (sequenceLength - 1)]
                  @ [folder @ ''/'' @ FrameName sequenceLength]
                  @ (if includeReversed
                     then map (\<lambda>k. folder @ ''/'' @ FrameName (sequenceLength + 1 + int k))
                              [0 ..< nat sequenceLength]
                     else []), video)
         \<and> length video = (if includeReversed then 2 * nat sequenceLength else nat sequenceLength)"
proof -
  let ?st0 = "\<lparr>files = fs, imageList = [], fileList = []\<rparr>"
  let ?st1 = "save_frame folder startImg 1 ?st0"
  let ?inc = "1 / of_int ((sequenceLength - 2) + 1) :: rat"
  have d1: "set (fileList ?st1) \<subseteq> dom (files ?st1)"
    by (rule save_frame_dom) simp
  from blend_loop_forward [OF assms, of B folder ?st1] d1 obtain st2 where
    run: "blend_loop (\<lambda>a. Inr (B a)) folder ?inc [0 ..< nat (sequenceLength - 2)] 0 ?st1 = (st2, None)"
    and il2: "imageList st2 = imageList ?st1
               @ map (\<lambda>k. B (of_nat k / of_int (sequenceLength - 1))) [1 ..< nat (sequenceLength - 1)]"
    and fl2: "fileList st2 = fileList ?st1
               @ map (\<lambda>k. folder @ ''/'' @ FrameName (int k)) [1 ..< nat (sequenceLength - 1)]"
    and d2: "set (fileList st2) \<subseteq> dom (files st2)"
    by blast
  let ?st3 = "save_frame folder endImg sequenceLength st2"
  let ?st4 = "if includeReversed
     then reverse_loop folder (rev (imageList ?st3)) (sequenceLength + 1) ?st3 else ?st3"
  let ?paths = "(folder @ ''/'' @ FrameName 1)
                  # map (\<lambda>k. folder @ ''/'' @ FrameName (int k)) [1 ..< nat (sequenceLength - 1)]
                  @ [folder @ ''/'' @ FrameName sequenceLength]
                  @ (if includeReversed
                     then map (\<lambda>k. folder @ ''/'' @ FrameName (sequenceLength + 1 + int k))
                              [0 ..< nat sequenceLength]
                     else [])"
  have d3: "set (fileList ?st3) \<subseteq> dom (files ?st3)" by (rule save_frame_dom [OF d2])
  have d4: "set (fileList ?st4) \<subseteq> dom (files ?st4)"
    using d3 reverse_loop_files_dom [OF d3] by simp
  have len3: "length (imageList ?st3) = nat sequenceLength"
    using assms by (simp add: save_frame_def il2)
  have fl3: "fileList ?st3 = (folder @ ''/'' @ FrameName 1)
                  # map (\<lambda>k. folder @ ''/'' @ FrameName (int k)) [1 ..< nat (sequenceLength - 1)]
                  @ [folder @ ''/'' @ FrameName sequenceLength]"
    by (simp add: save_frame_def fl2)
  have fl4: "fileList ?st4 = ?paths"
    by (simp add: reverse_loop_fileList len3 fl3)
  have nz: "(sequenceLength - 2) + 1 \<noteq> 0" using assms by simp
  have "snd (generateMorphVideo (\<lambda>a. Inr (B a)) startImg endImg folder sequenceLength includeReversed fs)
        = (case read_frames (files ?st4) (fileList ?st4) of
             Inl e \<Rightarrow> Inl e | Inr video \<Rightarrow> Inr (fileList ?st4, video))"
    unfolding generateMorphVideo_def Let_def using nz run by (simp del: of_int_diff of_int_add)
  then have res: "snd (generateMorphVideo (\<lambda>a. Inr (B a)) startImg endImg folder sequenceLength
                   includeReversed fs)
        = Inr (fileList ?st4, map (\<lambda>p. the (files ?st4 p)) (fileList ?st4))"
    by (simp only: read_frames_total [OF d4] sum.case)
  have "length (map (\<lambda>p. the (files ?st4 p)) (fileList ?st4))
        = (if includeReversed then 2 * nat sequenceLength else nat sequenceLength)"
    unfolding fl4 using assms by simp
  then show ?thesis using res unfolding fl4 by blast
qed

section \<open>Properties of the blender\<close>

lemma ebind_Inr: "ebind m f = Inr v \<longleftrightarrow> (\<exists>x. m = Inr x \<and> f x = Inr v)"
  by (cases m) (simp_all add: ebind_def)

lemma Affine_init_fields:
  "Affine_init s d = Inr a \<Longrightarrow> source a = s \<and> destination a = d"
  by (auto simp: Affine_init_def split: if_splits sum.splits)

lemma transform_Inr_conditions:
  "transform L a src dst = Inr out \<Longrightarrow>
   2 \<le> height src \<and> 2 \<le> width src \<and> channels src = channels dst"
  by (auto simp: transform_def interpn_def Let_def split: if_splits sum.splits)

lemma length_warped_pixel: "length (warped_pixel L a src rc) = channels src"
  by (simp add: warped_pixel_def round_pixel_def interp_point_def Let_def)

lemma transform_rectangular:
  assumes rect: "rectangular h w n dst" and t: "transform L a src dst = Inr out"
  shows "rectangular h w n out"
proof (rule rectangularI)
  note R = rectangularD [OF rect]
  note C = transform_Inr_conditions [OF t]
  let ?sparse = "find_nonzero (Mask L a dst)"
  let ?g = "warped_pixel L a src"
  have out: "out = assign_pixels dst (map (\<lambda>rc. (rc, ?g rc)) ?sparse)"
    using t transform_closed_form [of src dst L a] C by simp
  have bounds: "\<forall>rc\<in>set ?sparse. fst rc < length dst \<and> snd rc < length (dst ! fst rc)"
  proof
    fix rc assume "rc \<in> set ?sparse"
    then have m: "fst rc < height dst" "snd rc < width dst"
      unfolding set_find_nonzero_Mask by auto
    then have "0 < h" using R(2) by simp
    then have "width dst = w" using R(5) by simp
    then show "fst rc < length dst \<and> snd rc < length (dst ! fst rc)"
      using m R(1) R(2) R(3) [of "fst rc"] by simp
  qed
  show "length out = h"
  proof (cases "0 < h")
    case True
    then show ?thesis using assign_pixels_nth [OF bounds, of 0 ?g] R(1) out by simp
  next
    case False
    then have "dst = []" using R(1) by simp
    then show ?thesis using False out
      by (simp add: find_nonzero_Mask height_def assign_pixels_def)
  qed
  show "length (out ! r) = w" if r: "r < h" for r
    using assign_pixels_nth [OF bounds, of r ?g] R(1) R(3) [OF r] r out by simp
  show "length (out ! r ! c) = n" if r: "r < h" and c: "c < w" for r c
  proof -
    have rl: "r < length dst" using r R(1) by simp
    have v: "out ! r ! c = (if (r, c) \<in> set ?sparse then ?g (r, c) else dst ! r ! c)"
      using assign_pixels_nth [OF bounds rl, of ?g c] out by simp
    have "channels dst = n" using R(6) r c by simp
    then have "length (?g (r, c)) = n" using C by (simp add: length_warped_pixel)
    then show ?thesis using v R(4) [OF r c] by simp
  qed
qed

lemma transform_pixel_of_result:
  assumes rect: "rectangular h w n dst" and t: "transform L a src dst = Inr out"
    and r: "r < h" and c: "c < w"
  shows "out ! r ! c = (if polygon L (destination a) c r then warped_pixel L a src (r, c)
                        else dst ! r ! c)"
  using transform_pixel [OF rect _ _ _ r c, of src L a] transform_Inr_conditions [OF t] t
  by auto

lemma warp_triangle_result:
  assumes w: "warp_triangle L b tp tri bufs = Inr bufs'"
    and rs: "rectangular hs ws n (fst bufs)" and re: "rectangular he we n (snd bufs)"
  shows "\<exists>cs ce ct a1 a2.
           tri_points (startPoints b) tri = Inr cs \<and> tri_points (endPoints b) tri = Inr ce
         \<and> tri_points tp tri = Inr ct
         \<and> Affine_init cs ct = Inr a1 \<and> Affine_init ce ct = Inr a2
         \<and> rectangular hs ws n (fst bufs') \<and> rectangular he we n (snd bufs')
         \<and> (\<forall>r<hs. \<forall>c<ws. fst bufs' ! r ! c
               = (if polygon L ct c r then warped_pixel L a1 (startImage b) (r, c)
                  else fst bufs ! r ! c))
         \<and> (\<forall>r<he. \<forall>c<we. snd bufs' ! r ! c
               = (if polygon L ct c r then warped_pixel L a2 (endImage b) (r, c)
                  else snd bufs ! r ! c))"
proof -
  from w obtain cs ce ct a1 ts a2 te where
    cs: "tri_points (startPoints b) tri = Inr cs" and ce: "tri_points (endPoints b) tri = Inr ce"
    and ct: "tri_points tp tri = Inr ct"
    and a1: "Affine_init cs ct = Inr a1" and t1: "transform L a1 (startImage b) (fst bufs) = Inr ts"
    and a2: "Affine_init ce ct = Inr a2" and t2: "transform L a2 (endImage b) (snd bufs) = Inr te"
    and res: "bufs' = (ts, te)"
    unfolding warp_triangle_def ebind_Inr by auto
  have d: "destination a1 = ct" "destination a2 = ct"
    using Affine_init_fields [OF a1] Affine_init_fields [OF a2] by simp_all
  show ?thesis
    using cs ce ct a1 a2 res
      transform_rectangular [OF rs t1] transform_rectangular [OF re t2]
      transform_pixel_of_result [OF rs t1] transform_pixel_of_result [OF re t2] d
    by auto
qed

lemma covered_Cons:
  "covered L tp (tri # tris) x y
   \<longleftrightarrow> (case tri_points tp tri of Inl e \<Rightarrow> False | Inr vs \<Rightarrow> polygon L vs x y)
       \<or> covered L tp tris x y"
  by (simp add: covered_def)

lemma warp_all_rectangular:
  assumes "warp_all L b tp tris bufs = Inr bufs'"
    and "rectangular hs ws n (fst bufs)" "rectangular he we n (snd bufs)"
  shows "rectangular hs ws n (fst bufs') \<and> rectangular he we n (snd bufs')"
  using assms
proof (induction tris arbitrary: bufs)
  case Nil
  then show ?case by simp
next
  case (Cons tri tris)
  from Cons.prems(1) obtain bufs1 where
    s: "warp_triangle L b tp tri bufs = Inr bufs1" and r: "warp_all L b tp tris bufs1 = Inr bufs'"
    by (auto split: sum.splits)
  from warp_triangle_result [OF s Cons.prems(2,3)]
  have "rectangular hs ws n (fst bufs1)" "rectangular he we n (snd bufs1)" by auto
  then show ?case by (rule Cons.IH [OF r])
qed

lemma warp_all_fst:
  assumes "warp_all L b tp tris bufs = Inr bufs'"
    and "rectangular hs ws n (fst bufs)" "rectangular he we n (snd bufs)"
    and "r < hs" "c < ws"
    and "\<And>tri cs ct a. tri \<in> set tris \<Longrightarrow> tri_points (startPoints b) tri = Inr cs \<Longrightarrow>
           tri_points tp tri = Inr ct \<Longrightarrow> Affine_init cs ct = Inr a \<Longrightarrow> polygon L ct c r \<Longrightarrow>
           warped_pixel L a (startImage b) (r, c) = v"
  shows "fst bufs' ! r ! c = (if covered L tp tris c r then v else fst bufs ! r ! c)"
  using assms
proof (induction tris arbitrary: bufs)
  case Nil
  then show ?case by (simp add: covered_def)
next
  case (Cons tri tris)
  from Cons.prems(1) obtain bufs1 where
    s: "warp_triangle L b tp tri bufs = Inr bufs1" and w: "warp_all L b tp tris bufs1 = Inr bufs'"
    by (auto split: sum.splits)
  from warp_triangle_result [OF s Cons.prems(2,3)] obtain cs ct a1 where
    cs: "tri_points (startPoints b) tri = Inr cs" and ct: "tri_points tp tri = Inr ct"
    and a1: "Affine_init cs ct = Inr a1"
    and r1: "rectangular hs ws n (fst bufs1)" "rectangular he we n (snd bufs1)"
    and p1: "fst bufs1 ! r ! c = (if polygon L ct c r then warped_pixel L a1 (startImage b) (r, c)
                                  else fst bufs ! r ! c)"
    using Cons.prems(4,5) by blast
  have v1: "polygon L ct c r \<Longrightarrow> warped_pixel L a1 (startImage b) (r, c) = v"
    using Cons.prems(6) [OF _ cs ct a1] by simp
  have IH: "fst bufs' ! r ! c = (if covered L tp tris c r then v else fst bufs1 ! r ! c)"
    by (rule Cons.IH [OF w r1 Cons.prems(4,5)]) (rule Cons.prems(6), simp_all)
  show ?case using IH p1 v1 by (auto simp: covered_Cons ct)
qed

lemma warp_all_snd:
  assumes "warp_all L b tp tris bufs = Inr bufs'"
    and "rectangular hs ws n (fst bufs)" "rectangular he we n (snd bufs)"
    and "r < he" "c < we"
    and "\<And>tri ce ct a. tri \<in> set tris \<Longrightarrow> tri_points (endPoints b) tri = Inr ce \<Longrightarrow>
           tri_points tp tri = Inr ct \<Longrightarrow> Affine_init ce ct = Inr a \<Longrightarrow> polygon L ct c r \<Longrightarrow>
           warped_pixel L a (endImage b) (r, c) = v"
  shows "snd bufs' ! r ! c = (if covered L tp tris c r then v else snd bufs ! r ! c)"
  using assms
proof (induction tris arbitrary: bufs)
  case Nil
  then show ?case by (simp add: covered_def)
next
  case (Cons tri tris)
  from Cons.prems(1) obtain bufs1 where
    s: "warp_triangle L b tp tri bufs = Inr bufs1" and w: "warp_all L b tp tris bufs1 = Inr bufs'"
    by (auto split: sum.splits)
  from warp_triangle_result [OF s Cons.prems(2,3)] obtain ce ct a2 where
    ce: "tri_points (endPoints b) tri = Inr ce" and ct: "tri_points tp tri = Inr ct"
    and a2: "Affine_init ce ct = Inr a2"
    and r1: "rectangular hs ws n (fst bufs1)" "rectangular he we n (snd bufs1)"
    and p1: "snd bufs1 ! r ! c = (if polygon L ct c r then warped_pixel L a2 (endImage b) (r, c)
                                  else snd bufs ! r ! c)"
    using Cons.prems(4,5) by blast
  have v1: "polygon L ct c r \<Longrightarrow> warped_pixel L a2 (endImage b) (r, c) = v"
    using Cons.prems(6) [OF _ ce ct a2] by simp
  have IH: "snd bufs' ! r ! c = (if covered L tp tris c r then v else snd bufs1 ! r ! c)"
    by (rule Cons.IH [OF w r1 Cons.prems(4,5)]) (rule Cons.prems(6), simp_all)
  show ?case using IH p1 v1 by (auto simp: covered_Cons ct)
qed

lemma covered_witness:
  assumes "tri \<in> set tris" "tri_points tp tri = Inr ct" "polygon L ct x y"
  shows "covered L tp tris x y"
  using assms by (auto simp: covered_def list_ex_iff intro!: bexI [of _ tri])

lemma blend_channel_zero: "blend_channel alpha 0 0 = 0"
  by (simp add: blend_channel_def astype_uint8_def)

lemma cross_dissolve_pixel:
  assumes cd: "cross_dissolve alpha ts te = Inr frame"
    and rs: "rectangular hs ws n ts" and re: "rectangular he we n te"
    and r: "r < hs" and c: "c < ws"
  shows "he = hs \<and> we = ws \<and> frame ! r ! c = map2 (blend_channel alpha) (ts ! r ! c) (te ! r ! c)"
proof -
  note S = rectangularD [OF rs] and E = rectangularD [OF re]
  from cd have sh: "shape ts = shape te"
    and fr: "frame = map2 (map2 (map2 (blend_channel alpha))) ts te"
    by (auto simp: cross_dissolve_def split: if_splits)
  have he: "he = hs" using sh S(2) E(2) by (simp add: shape_def)
  have "width te = width ts" using sh by (simp add: shape_def)
  then have we: "we = ws" using S(5) E(5) he r by simp
  have "frame ! r ! c = map2 (blend_channel alpha) (ts ! r ! c) (te ! r ! c)"
    using fr r c he we S(1) E(1) S(3) [of r] E(3) [of r] by simp
  then show ?thesis using he we by simp
qed











lemma nondegenerate_tri_points:
  assumes "nondegenerate ps tri"
  shows "\<exists>p q r. tri_points ps tri = Inr [p, q, r] \<and> area2 p q r \<noteq> 0"
  using assms by (cases tri) (simp add: nondegenerate_def tri_points_def)

lemma transform_succeeds:
  assumes "rectangular h w n src" "rectangular h w n dst" "2 \<le> h" "2 \<le> w"
  shows "\<exists>out. transform L a src dst = Inr out"
proof -
  note S = rectangularD [OF assms(1)] and D = rectangularD [OF assms(2)]
  have "2 \<le> height src" "2 \<le> width src" "channels src = channels dst"
    using S(2) S(5) S(6) D(6) assms(3,4) by simp_all
  from transform_closed_form [OF this] show ?thesis by blast
qed

lemma warp_triangle_succeeds:
  assumes nd: "nondegenerate (startPoints b) tri" "nondegenerate (endPoints b) tri"
      "nondegenerate tp tri"
    and img: "rectangular h w n (startImage b)" "rectangular h w n (endImage b)"
    and buf: "rectangular h w n (fst bufs)" "rectangular h w n (snd bufs)"
    and sz: "2 \<le> h" "2 \<le> w"
  shows "\<exists>bufs'. warp_triangle L b tp tri bufs = Inr bufs'"
proof -
  from nondegenerate_tri_points [OF nd(1)] obtain p q r where
    cs: "tri_points (startPoints b) tri = Inr [p, q, r]" and s: "area2 p q r \<noteq> 0" by blast
  from nondegenerate_tri_points [OF nd(2)] obtain p' q' r' where
    ce: "tri_points (endPoints b) tri = Inr [p', q', r']" and e: "area2 p' q' r' \<noteq> 0" by blast
  from nondegenerate_tri_points [OF nd(3)] obtain p'' q'' r'' where
    ct: "tri_points tp tri = Inr [p'', q'', r'']" and t: "area2 p'' q'' r'' \<noteq> 0" by blast
  obtain ts where ts: "transform L
      \<lparr>source = [p, q, r], destination = [p'', q'', r''], matrix = fit p q r p'' q'' r'',
         inverseMatrix = inv3 (fit p q r p'' q'' r'')\<rparr> (startImage b) (fst bufs) = Inr ts"
    using transform_succeeds [OF img(1) buf(1) sz] by blast
  obtain te where te: "transform L
      \<lparr>source = [p', q', r'], destination = [p'', q'', r''], matrix = fit p' q' r' p'' q'' r'',
         inverseMatrix = inv3 (fit p' q' r' p'' q'' r'')\<rparr> (endImage b) (snd bufs) = Inr te"
    using transform_succeeds [OF img(2) buf(2) sz] by blast
  show ?thesis
    by (simp add: warp_triangle_def ebind_def cs ce ct Affine_init_fit [OF s t]
          Affine_init_fit [OF e t] ts te)
qed

lemma warp_all_succeeds:
  assumes "\<forall>tri\<in>set tris. nondegenerate (startPoints b) tri \<and> nondegenerate (endPoints b) tri
             \<and> nondegenerate tp tri"
    and "rectangular h w n (startImage b)" "rectangular h w n (endImage b)"
    and "rectangular h w n (fst bufs)" "rectangular h w n (snd bufs)"
    and "2 \<le> h" "2 \<le> w"
  shows "\<exists>bufs'. warp_all L b tp tris bufs = Inr bufs'"
  using assms
proof (induction tris arbitrary: bufs)
  case Nil
  show ?case by simp
next
  case (Cons tri tris)
  from Cons.prems(1) have nd: "nondegenerate (startPoints b) tri" "nondegenerate (endPoints b) tri"
      "nondegenerate tp tri" by simp_all
  from warp_triangle_succeeds [OF nd Cons.prems(2-7)] obtain bufs1 where
    s: "warp_triangle L b tp tri bufs = Inr bufs1" by blast
  from warp_triangle_result [OF s Cons.prems(4,5)]
  have r1: "rectangular h w n (fst bufs1)" "rectangular h w n (snd bufs1)" by auto
  have "\<exists>bufs'. warp_all L b tp tris bufs1 = Inr bufs'"
    by (rule Cons.IH [OF _ Cons.prems(2,3) r1 Cons.prems(6,7)]) (use Cons.prems(1) in simp)
  then show ?case by (simp add: s)
qed

lemma cross_dissolve_succeeds:
  assumes "rectangular h w n ts" "rectangular h w n te" "0 < h" "0 < w"
  shows "\<exists>frame. cross_dissolve alpha ts te = Inr frame"
  using rectangularD [OF assms(1)] rectangularD [OF assms(2)] assms(3,4)
  by (simp add: cross_dissolve_def shape_def)









lemma corner_session_facts:
  "rectangular 2 2 1 (startImage corner_session)" "rectangular 2 2 1 (endImage corner_session)"
  "length (startPoints corner_session) = length (endPoints corner_session)"
  "\<forall>tri\<in>set (triangles corner_session). nondegenerate (startPoints corner_session) tri
      \<and> nondegenerate (endPoints corner_session) tri"
  "covered reference_libs (startPoints corner_session) (triangles corner_session) 0 0"
  "covered reference_libs (endPoints corner_session) (triangles corner_session) 0 0"
  "\<not> covered reference_libs (startPoints corner_session) (triangles corner_session) 1 1"
  "height (startImage corner_session) = 2" "width (startImage corner_session) = 2"
  "interpolate_points (1 / 2) (startPoints corner_session) (endPoints corner_session)
     = Inr (startPoints corner_session)"
  by (simp_all add: corner_session_def rectangular_def nondegenerate_def area2_def covered_def
        tri_points_def reference_libs_def closed_triangle_def height_def width_def
        interpolate_points_def lerp_def)

lemmas eval_defs =
  getBlendedImage_def ebind_def interpolate_points_def lerp_def warp_triangle_def tri_points_def
  Affine_init_def CreateMatrix_def linalg_solve_def linalg_inv_def det_def replace_col_def
  unit_vector_def transform_def interpn_def Let_def find_nonzero_Mask
  reference_libs_def closed_triangle_def area2_def outside_def inverse_map_def matvec_def
  height_def width_def channels_def interp_point_def round_pixel_def assign_pixels_def
  set_pixel_def blank_def cross_dissolve_def shape_def blend_channel_def astype_uint8_def
  find_index_def sample_def np_round_def upt2 upt3 upt6

lemma uncovered_zero:
  assumes frame: "getBlendedImage L n b alpha = Inr frame"
    and tp: "interpolate_points alpha (startPoints b) (endPoints b) = Inr targetPoints"
    and r: "r < height (startImage b)" and c: "c < width (startImage b)"
    and unc: "\<not> covered L targetPoints (triangles b) c r"
  shows "frame ! r ! c = replicate n 0"
proof -
  let ?hs = "height (startImage b)" and ?ws = "width (startImage b)"
  let ?he = "height (endImage b)" and ?we = "width (endImage b)"
  let ?bufs = "(blank ?hs ?ws n, blank ?he ?we n)"
  from frame tp obtain bufs' where
    w: "warp_all L b targetPoints (triangles b) ?bufs = Inr bufs'"
    and cd: "cross_dissolve alpha (fst bufs') (snd bufs') = Inr frame"
    unfolding getBlendedImage_def ebind_Inr by auto
  have rb: "rectangular ?hs ?ws n (fst ?bufs)" "rectangular ?he ?we n (snd ?bufs)"
    by (simp_all add: rectangular_blank)
  note R = warp_all_rectangular [OF w rb]
  from cross_dissolve_pixel [OF cd R [THEN conjunct1] R [THEN conjunct2] r c]
  have he: "?he = ?hs" and we: "?we = ?ws"
    and px: "frame ! r ! c = map2 (blend_channel alpha) (fst bufs' ! r ! c) (snd bufs' ! r ! c)"
    by simp_all
  have "fst bufs' ! r ! c = (if covered L targetPoints (triangles b) c r then [] else fst ?bufs ! r ! c)"
    by (rule warp_all_fst [OF w rb r c]) (use unc covered_witness in blast)
  then have s0: "fst bufs' ! r ! c = replicate n 0" using unc r c by (simp add: blank_def)
  have "snd bufs' ! r ! c = (if covered L targetPoints (triangles b) c r then [] else snd ?bufs ! r ! c)"
    by (rule warp_all_snd [OF w rb]) (use unc covered_witness r c he we in auto)
  then have e0: "snd bufs' ! r ! c = replicate n 0" using unc r c he we by (simp add: blank_def)
  show ?thesis unfolding px s0 e0 by (simp add: zip_replicate blend_channel_zero)
qed

lemma getBlendedImage_succeeds:
  assumes si: "rectangular h w n (startImage b)" and ei: "rectangular h w n (endImage b)"
    and sz: "2 \<le> h" "2 \<le> w"
    and tp: "interpolate_points alpha (startPoints b) (endPoints b) = Inr targetPoints"
    and nd: "\<forall>tri\<in>set (triangles b). nondegenerate (startPoints b) tri
               \<and> nondegenerate (endPoints b) tri \<and> nondegenerate targetPoints tri"
  shows "\<exists>frame. getBlendedImage L n b alpha = Inr frame"
proof -
  let ?bufs = "(blank h w n, blank h w n)"
  have dims: "height (startImage b) = h" "width (startImage b) = w"
      "height (endImage b) = h" "width (endImage b) = w"
    using rectangularD(2,5) [OF si] rectangularD(2,5) [OF ei] sz by simp_all
  have rb: "rectangular h w n (fst ?bufs)" "rectangular h w n (snd ?bufs)"
    by (simp_all add: rectangular_blank)
  from warp_all_succeeds [OF nd si ei rb sz] obtain bufs' where
    w: "warp_all L b targetPoints (triangles b) ?bufs = Inr bufs'" by blast
  note R = warp_all_rectangular [OF w rb]
  from cross_dissolve_succeeds [OF R [THEN conjunct1] R [THEN conjunct2]] sz obtain f where
    cd: "cross_dissolve alpha (fst bufs') (snd bufs') = Inr f" by auto
  have "getBlendedImage L n b alpha = Inr f"
    by (simp add: getBlendedImage_def ebind_def tp dims w cd)
  then show ?thesis by blast
qed

text \<open>
  C10. Every pixel that lies in the mask of no triangle (drawn at the interpolated
  target points, which both warps share) is 0 in every channel of any frame that
  \<open>getBlendedImage\<close> returns: both intermediate buffers start as zeros, each warp
  writes only at the positions of its own mask, and the cross-dissolve of two zeros is
  zero. This holds for every \<open>alpha\<close>. A frame is returned whenever the images have
  one shape of at least 2 by 2 pixels and every triangle is non-degenerate at the
  start, end and target points.
\<close>

theorem uncovered_pixels_are_zero:
  assumes tp: "interpolate_points alpha (startPoints b) (endPoints b) = Inr targetPoints"
    and r: "r < height (startImage b)" and c: "c < width (startImage b)"
    and unc: "\<not> covered L targetPoints (triangles b) c r"
  shows "(\<forall>frame. getBlendedImage L n b alpha = Inr frame \<longrightarrow> frame ! r ! c = replicate n 0)
       \<and> (rectangular h w n (startImage b) \<and> rectangular h w n (endImage b) \<and> 2 \<le> h \<and> 2 \<le> w
            \<and> (\<forall>tri\<in>set (triangles b). nondegenerate (startPoints b) tri
                  \<and> nondegenerate (endPoints b) tri \<and> nondegenerate targetPoints tri)
          \<longrightarrow> (\<exists>frame. getBlendedImage L n b alpha = Inr frame))"
  using uncovered_zero [OF _ tp r c unc] getBlendedImage_succeeds [OF _ _ _ _ tp, of h w n L]
  by blast

theorem uncovered_pixels_are_zero_witness:
  "getBlendedImage reference_libs 1 corner_session (1 / 2) = Inr [[[30], [40]], [[50], [0]]]
   \<and> \<not> covered reference_libs (startPoints corner_session) (triangles corner_session) 1 1
   \<and> ([[[30], [40]], [[50], [0]]] :: image) ! 1 ! 1 = replicate 1 0"
proof -
  note f = corner_session_facts
  have run: "getBlendedImage reference_libs 1 corner_session (1 / 2)
             = Inr [[[30], [40]], [[50], [0]]]"
    by (simp add: corner_session_def eval_defs)
  have rc: "1 < height (startImage corner_session)" "1 < width (startImage corner_session)"
    by (simp_all add: f)
  from uncovered_pixels_are_zero [OF f(10) rc f(7), of 1] run
  have "([[[30], [40]], [[50], [0]]] :: image) ! 1 ! 1 = replicate 1 0"
    by blast
  then show ?thesis using run f(7) by blast
qed




section \<open>The generator on a session\<close>

lemma corner_blends:
  "getBlendedImage reference_libs 1 corner_session (1 / 4) = Inr [[[20], [30]], [[40], [0]]]"
  "getBlendedImage reference_libs 1 corner_session (1 / 2) = Inr [[[30], [40]], [[50], [0]]]"
  "getBlendedImage reference_libs 1 corner_session (3 / 4) = Inr [[[40], [50]], [[60], [0]]]"
  by (simp_all add: corner_session_def eval_defs)

text \<open>
  C4, on the code. With \<open>sequenceLength = 3\<close> and no reversal the single blended frame
  (\<open>alpha = 1/2\<close>) is saved under \<open>_FrameName(i + 1)\<close> with \<open>i = 0\<close>, that is as
  \<open>frame001.jpg\<close>, over the start image; \<open>frame002.jpg\<close> is never written. The list of
  paths names \<open>frame001.jpg\<close> twice, and the frames read back from it are the blend,
  the blend and the end image: the start image is in no file.
\<close>

theorem generateMorphVideo_three_frames:
  assumes "blend (1 / 2) = Inr m"
  shows "generateMorphVideo blend startImg endImg folder 3 False fs
   = (fs(folder @ ''/frame001.jpg'' \<mapsto> m, folder @ ''/frame003.jpg'' \<mapsto> endImg),
      Inr ([folder @ ''/frame001.jpg'', folder @ ''/frame001.jpg'', folder @ ''/frame003.jpg''],
           [m, m, endImg]))"
  using assms
  by (simp add: generateMorphVideo_def save_frame_def SaveImage_def FrameName_small upt_rec)

theorem generateMorphVideo_three_frames_witness:
  "getBlendedImage reference_libs 1 corner_session (1 / 2) = Inr [[[30], [40]], [[50], [0]]]
   \<and> Blender_generateMorphVideo reference_libs corner_session ''out'' 3 False Map.empty
     = (Map.empty(''out/frame001.jpg'' \<mapsto> [[[30], [40]], [[50], [0]]],
                  ''out/frame003.jpg'' \<mapsto> [[[50], [60]], [[70], [80]]]),
        Inr ([''out/frame001.jpg'', ''out/frame001.jpg'', ''out/frame003.jpg''],
             [[[[30], [40]], [[50], [0]]], [[[30], [40]], [[50], [0]]],
              [[[50], [60]], [[70], [80]]]]))"
proof -
  have e: "endImage corner_session = [[[50], [60]], [[70], [80]]]"
    by (simp add: corner_session_def)
  from generateMorphVideo_three_frames
         [where blend = "getBlendedImage reference_libs 1 corner_session"
            and startImg = "startImage corner_session" and endImg = "endImage corner_session"
            and folder = "''out''" and fs = Map.empty, OF corner_blends(2)]
  show ?thesis unfolding Blender_generateMorphVideo_def e using corner_blends(2) by simp
qed

text \<open>
  C8, on the code. With \<open>sequenceLength = 5\<close> and the reversal, ten paths are listed, but
  the forward half names \<open>frame001.jpg\<close> twice and never \<open>frame004.jpg\<close> (that file is
  left as it was). The frames read back are the blends at 1/4, 1/4, 1/2, 3/4 and the
  end image, then the end image, the blends at 3/4, 1/2, 1/4 and the start image: frame
  10 is the start image and frame 1 is the blend at 1/4.
\<close>

theorem generateMorphVideo_five_reversed:
  assumes "blend (1 / 4) = Inr m1" "blend (1 / 2) = Inr m2" "blend (3 / 4) = Inr m3"
  shows "snd (generateMorphVideo blend startImg endImg folder 5 True fs)
   = Inr ([folder @ ''/frame001.jpg'', folder @ ''/frame001.jpg'', folder @ ''/frame002.jpg'',
           folder @ ''/frame003.jpg'', folder @ ''/frame005.jpg'', folder @ ''/frame006.jpg'',
           folder @ ''/frame007.jpg'', folder @ ''/frame008.jpg'', folder @ ''/frame009.jpg'',
           folder @ ''/frame010.jpg''],
          [m1, m1, m2, m3, endImg, endImg, m3, m2, m1, startImg])
   \<and> fst (generateMorphVideo blend startImg endImg folder 5 True fs)
         (folder @ ''/frame004.jpg'')
     = fs (folder @ ''/frame004.jpg'')"
  using assms
  by (simp add: generateMorphVideo_def save_frame_def SaveImage_def FrameName_small upt_rec)

theorem generateMorphVideo_five_reversed_witness:
  "getBlendedImage reference_libs 1 corner_session (1 / 4) = Inr [[[20], [30]], [[40], [0]]]
   \<and> getBlendedImage reference_libs 1 corner_session (1 / 2) = Inr [[[30], [40]], [[50], [0]]]
   \<and> getBlendedImage reference_libs 1 corner_session (3 / 4) = Inr [[[40], [50]], [[60], [0]]]
   \<and> snd (Blender_generateMorphVideo reference_libs corner_session ''out'' 5 True Map.empty)
     = Inr ([''out/frame001.jpg'', ''out/frame001.jpg'', ''out/frame002.jpg'',
             ''out/frame003.jpg'', ''out/frame005.jpg'', ''out/frame006.jpg'',
             ''out/frame007.jpg'', ''out/frame008.jpg'', ''out/frame009.jpg'',
             ''out/frame010.jpg''],
            [[[[20], [30]], [[40], [0]]], [[[20], [30]], [[40], [0]]],
             [[[30], [40]], [[50], [0]]], [[[40], [50]], [[60], [0]]],
             [[[50], [60]], [[70], [80]]], [[[50], [60]], [[70], [80]]],
             [[[40], [50]], [[60], [0]]], [[[30], [40]], [[50], [0]]],
             [[[20], [30]], [[40], [0]]], [[[10], [20]], [[30], [40]]]])
   \<and> fst (Blender_generateMorphVideo reference_libs corner_session ''out'' 5 True Map.empty)
         ''out/frame004.jpg'' = None"
proof -
  have e: "endImage corner_session = [[[50], [60]], [[70], [80]]]"
    "startImage corner_session = [[[10], [20]], [[30], [40]]]"
    by (simp_all add: corner_session_def)
  from generateMorphVideo_five_reversed
         [where blend = "getBlendedImage reference_libs 1 corner_session"
            and startImg = "startImage corner_session" and endImg = "endImage corner_session"
            and folder = "''out''" and fs = Map.empty, OF corner_blends]
  show ?thesis unfolding Blender_generateMorphVideo_def e using corner_blends by simp
qed

section \<open>Properties of the session constructor\<close>

lemma Delaunay_few_points:
  assumes "length ps < 3"
  shows "Delaunay ps = Inl QhullError"
proof -
  have "filter (\<lambda>(i, j, k). i < j \<and> j < k
                         \<and> area2 (ps ! i) (ps ! j) (ps ! k) \<noteq> 0
                         \<and> list_all (\<lambda>s. \<not> in_circle (ps ! i) (ps ! j) (ps ! k) s) ps)
               (List.product [0 ..< length ps] (List.product [0 ..< length ps] [0 ..< length ps]))
        = []"
    unfolding filter_empty_conv using assms by auto
  then show ?thesis by (simp add: Delaunay_def Let_def)
qed

text \<open>
  C9, as the code has it. \<open>Blender.__init__\<close> checks the types of its arguments and
  nothing about the point sets. Construction succeeds exactly when the triangulation of
  the start points does, and then stores the four arguments unchanged together with
  that triangulation; a failure of the triangulator is the failure of the constructor.
  The end points are not looked at: neither their number nor its equality with the
  number of start points. With fewer than three start points it is the triangulation
  itself that fails.
\<close>

theorem Blender_init_checks_only_triangulation:
  "(\<forall>t. delaunay startPts = Inr t \<longrightarrow>
        Blender_init delaunay startImg startPts endImg endPts
        = Inr \<lparr>startImage = startImg, startPoints = startPts, endImage = endImg,
               endPoints = endPts, triangles = t\<rparr>)
   \<and> (\<forall>e. delaunay startPts = Inl e \<longrightarrow>
        Blender_init delaunay startImg startPts endImg endPts = Inl e)
   \<and> (length startPts < 3 \<longrightarrow>
        Blender_init Delaunay startImg startPts endImg endPts = Inl QhullError)"
  by (simp add: Blender_init_def Delaunay_few_points)

theorem Blender_init_checks_only_triangulation_witness:
  "Delaunay [(0, 0), (1, 0), (0, 1)] = Inr [(0, 1, 2)]
   \<and> Blender_init Delaunay small_source [(0, 0), (1, 0), (0, 1)] sevens []
       = Inr \<lparr>startImage = small_source, startPoints = [(0, 0), (1, 0), (0, 1)],
              endImage = sevens, endPoints = [], triangles = [(0, 1, 2)]\<rparr>
   \<and> Delaunay [(0, 0), (1, 1), (2, 2)] = Inl QhullError
   \<and> Blender_init Delaunay small_source [(0, 0), (1, 1), (2, 2)] sevens [(0, 0), (1, 1), (2, 2)]
       = Inl QhullError
   \<and> Blender_init Delaunay small_source [(0, 0), (1, 0)] sevens [(0, 0), (1, 0)] = Inl QhullError"
proof -
  have d: "Delaunay [(0, 0), (1, 0), (0, 1)] = Inr [(0, 1, 2)]"
    by (simp add: Delaunay_def in_circle_def area2_def upt3 Let_def)
  have e: "Delaunay [(0, 0), (1, 1), (2, 2)] = Inl QhullError"
    by (simp add: Delaunay_def in_circle_def area2_def upt3 Let_def)
  show ?thesis
    using Blender_init_checks_only_triangulation
            [of Delaunay "[(0, 0), (1, 0), (0, 1)]" small_source sevens "[]"]
      Blender_init_checks_only_triangulation
            [of Delaunay "[(0, 0), (1, 1), (2, 2)]" small_source sevens "[(0, 0), (1, 1), (2, 2)]"]
      Blender_init_checks_only_triangulation
            [of Delaunay "[(0, 0), (1, 0)]" small_source sevens "[(0, 0), (1, 0)]"]
      d e
    by simp
qed

text \<open>The claim as the specification words it fails for three start points and two
  end points: the session is constructed.\<close>

theorem Blender_init_accepts_unequal_point_sets:
  "Blender_init Delaunay small_source [(0, 0), (1, 0), (0, 1)] sevens [(0, 0), (1, 0)]
   = Inr \<lparr>startImage = small_source, startPoints = [(0, 0), (1, 0), (0, 1)],
          endImage = sevens, endPoints = [(0, 0), (1, 0)], triangles = [(0, 1, 2)]\<rparr>"
  by (simp add: Blender_init_def Delaunay_def in_circle_def area2_def upt3 Let_def)

end
